theory Spec2Isabelle
  imports Main "HOL-Library.Char_ord" "HOL-Library.List_Lexorder"
begin

section \<open>Strings and pure paths\<close>

text \<open>
  A Python \<open>str\<close> is the list of its characters, a \<open>string\<close>: a character of the model
  is a code point below 256 (ASCII and the Latin-1 supplement, \<open>CHR 0xE9\<close> is the letter
  e with an acute accent), and a text with other characters is outside the model.
  \<open>split_str c s\<close> is \<open>s.split(c)\<close> for a one-character separator (the result is never
  empty), \<open>join_str sep xs\<close> is \<open>str.join(sep, xs)\<close>.
\<close>

fun split_str :: "char \<Rightarrow> string \<Rightarrow> string list" where
  "split_str c [] = [[]]"
| "split_str c (x # xs) =
     (if x = c then [] # split_str c xs
      else (case split_str c xs of [] \<Rightarrow> [[x]] | y # ys \<Rightarrow> (x # y) # ys))"

fun join_str :: "string \<Rightarrow> string list \<Rightarrow> string" where
  "join_str sep [] = []"
| "join_str sep [x] = x"
| "join_str sep (x # y # ys) = x @ sep @ join_str sep (y # ys)"

definition startswith :: "string \<Rightarrow> string \<Rightarrow> bool" where
  "startswith s p = (take (length p) s = p)"

definition lstrip :: "char \<Rightarrow> string \<Rightarrow> string" where
  "lstrip c s = dropWhile (\<lambda>x. x = c) s"

definition replace_char :: "char \<Rightarrow> char \<Rightarrow> string \<Rightarrow> string" where
  "replace_char a b s = map (\<lambda>x. if x = a then b else x) s"

text \<open>
  A \<open>pathlib.Path\<close> is the tuple of its \<open>parts\<close>: the names of the path, after the anchor
  \<open>/\<close> (or \<open>//\<close>) when the path is absolute. \<open>Path\<close> reads a string as
  \<open>pathlib.PurePosixPath\<close> does: empty names and \<open>.\<close> are dropped, \<open>..\<close> is kept.
  The empty tuple is the path \<open>.\<close>.
\<close>

type_synonym path = "string list"

definition is_anchor :: "string \<Rightarrow> bool" where
  "is_anchor s = (s \<noteq> [] \<and> hd s = CHR ''/'')"

definition comps :: "string \<Rightarrow> string list" where
  "comps s = filter (\<lambda>c. c \<noteq> [] \<and> c \<noteq> ''.'') (split_str CHR ''/'' s)"

definition Path :: "string \<Rightarrow> path" where
  "Path s =
     (if startswith s ''//'' \<and> \<not> startswith s ''///'' then [''//'']
      else if startswith s ''/'' then [''/'']
      else []) @ comps s"

definition only_anchor :: "path \<Rightarrow> bool" where
  "only_anchor p = (case p of [a] \<Rightarrow> is_anchor a | _ \<Rightarrow> False)"

definition parent :: "path \<Rightarrow> path" where
  "parent p = (if p = [] \<or> only_anchor p then p else butlast p)"

definition name :: "path \<Rightarrow> string" where
  "name p = (if p = [] \<or> only_anchor p then [] else last p)"

text \<open>
  \<open>dot_split nm\<close> is \<open>(stem, suffix)\<close> of a name: with \<open>i = nm.rfind('.')\<close>, the name is
  cut at \<open>i\<close> when \<open>0 < i < len(nm) - 1\<close>, and the suffix is empty otherwise.
\<close>

definition dot_split :: "string \<Rightarrow> string \<times> string" where
  "dot_split nm =
     (let k = length (takeWhile (\<lambda>c. c \<noteq> CHR ''.'') (rev nm)) in
      if CHR ''.'' \<in> set nm \<and> 0 < k \<and> Suc k < length nm
      then (take (length nm - Suc k) nm, drop (length nm - Suc k) nm)
      else (nm, []))"

definition stem :: "path \<Rightarrow> string" where
  "stem p = fst (dot_split (name p))"

definition suffix_of :: "path \<Rightarrow> string" where
  "suffix_of p = snd (dot_split (name p))"

text \<open>\<open>joinpath p s\<close> is \<open>p / s\<close> for a string \<open>s\<close>: an absolute \<open>s\<close> replaces \<open>p\<close>.\<close>

definition joinpath :: "path \<Rightarrow> string \<Rightarrow> path" where
  "joinpath p s = (if startswith s ''/'' then Path s else p @ comps s)"

section \<open>Exceptions, log records, values\<close>

datatype error =
    URLError | HTTPError | ConnectionError
  | JSONDecodeError | UnicodeDecodeError | BadGzipFile | ParserError
  | AttributeError | TypeError | ValueError | KeyError | IndexError | AssertionError
  | FileNotFoundError | FileExistsError | IsADirectoryError | NotADirectoryError | OSError

text \<open>\<open>urllib.error.HTTPError\<close> is a subclass of \<open>URLError\<close>.\<close>

definition is_URLError :: "error \<Rightarrow> bool" where
  "is_URLError e = (e = URLError \<or> e = HTTPError)"

text \<open>
  One constructor for each \<open>logging\<close> call of the program, with the values its message is
  formatted from.
\<close>

datatype event =
    Snapshot_info string string
  | Fetch_error error
  | Rename_warning path path
  | No_url_error string
  | No_response_error string
  | No_items_warning
  | Will_export_info "string list"
  | File_debug path
  | Removing_info path

text \<open>
  The value \<open>json.loads\<close> returns (numbers are integers here), the body
  \<open>get_response\<close> returns (\<open>str\<close> or \<open>bytes\<close>), what the program reads of an HTTP
  response, and an element of the tree \<open>lxml.html\<close> builds.
\<close>

datatype json =
    JNull | JBool bool | JNum int | JStr string | JArr "json list" | JObj "(string \<times> json) list"

datatype payload = Text string | Bytes string

record http_response =
  content_type :: "string option"
  content_encoding :: "string option"
  body :: string

datatype element =
  Element (tag: string) (attrib: "(string \<times> string) list") (etext: "string option")
    (children: "element list")

section \<open>The world outside the program\<close>

text \<open>
  The operating system, the network and the libraries are parameters of the model: the
  \<open>pathlib\<close> calls that touch the disk, over a file system of type \<open>'fs\<close>; the archive's
  availability endpoint (\<open>urlopen(url).read().decode()\<close> followed by \<open>json.loads\<close>);
  \<open>urlopen\<close> of a request with its user agent; the environment variable; \<open>gzip\<close>,
  \<open>bytes.decode\<close>, \<open>datetime.strptime\<close> (its result printed); \<open>lxml.html.fromstring\<close> and
  \<open>tostring\<close>; and \<open>urllib.parse.urlparse(...).path\<close>. A call that raises returns \<open>Inl\<close>.
  \<open>rename\<close> is \<open>Path.rename\<close>, whose return value (the target, as a new \<open>Path\<close>) the
  program's model supplies itself.
\<close>

record 'fs world =
  is_file :: "path \<Rightarrow> 'fs \<Rightarrow> bool"
  exists :: "path \<Rightarrow> 'fs \<Rightarrow> bool"
  rename :: "path \<Rightarrow> path \<Rightarrow> 'fs \<Rightarrow> error + 'fs"
  mkdir_parents :: "path \<Rightarrow> 'fs \<Rightarrow> error + 'fs"
  write_text :: "path \<Rightarrow> string \<Rightarrow> 'fs \<Rightarrow> error + 'fs"
  write_bytes :: "path \<Rightarrow> string \<Rightarrow> 'fs \<Rightarrow> error + 'fs"
  read_text :: "path \<Rightarrow> 'fs \<Rightarrow> error + string"
  readlines :: "path \<Rightarrow> 'fs \<Rightarrow> error + string list"
  rglob :: "string \<Rightarrow> 'fs \<Rightarrow> path list"
  symlink_to :: "path \<Rightarrow> path \<Rightarrow> 'fs \<Rightarrow> error + 'fs"
  available_api :: "string \<Rightarrow> error + json"
  urlopen :: "string \<Rightarrow> string \<Rightarrow> error + http_response"
  USERAGENT :: "string option"
  gunzip :: "string \<Rightarrow> error + string"
  decode_utf8 :: "string \<Rightarrow> error + string"
  strptime :: "string \<Rightarrow> error + string"
  fromstring :: "payload \<Rightarrow> error + element"
  tostring :: "element \<Rightarrow> string"
  urlparse_path :: "string \<Rightarrow> error + string"

text \<open>The program's state: the disk and the log written so far.\<close>

record 'fs state =
  fs :: 'fs
  logs :: "event list"

definition logging :: "event \<Rightarrow> 'fs state \<Rightarrow> 'fs state" where
  "logging e st = st\<lparr>logs := logs st @ [e]\<rparr>"

section \<open>The content materializer\<close>

definition rename_if_collision ::
  "'fs world \<Rightarrow> path \<Rightarrow> 'fs state \<Rightarrow> (error + path) \<times> 'fs state" where
  "rename_if_collision w file st =
     (if is_file w (parent file) (fs st) then
        (let target = joinpath (parent (parent file)) (''_'' @ stem (parent file));
             st1 = logging (Rename_warning (parent file) target) st
         in case rename w (parent file) target (fs st1) of
              Inl e \<Rightarrow> (Inl e, st1)
            | Inr fs' \<Rightarrow> (Inr target, st1\<lparr>fs := fs'\<rparr>))
      else (Inr file, st))"

definition write_file ::
  "'fs world \<Rightarrow> path \<Rightarrow> payload \<Rightarrow> 'fs state \<Rightarrow> (error + unit) \<times> 'fs state" where
  "write_file w file response st =
     (case rename_if_collision w file st of
        (Inl e, st1) \<Rightarrow> (Inl e, st1)
      | (Inr file', st1) \<Rightarrow>
          (case mkdir_parents w (parent file') (fs st1) of
             Inl e \<Rightarrow> (Inl e, st1)
           | Inr fs2 \<Rightarrow>
               (case (case response of
                        Text s \<Rightarrow> write_text w file' s fs2
                      | Bytes b \<Rightarrow> write_bytes w file' b fs2) of
                  Inl e \<Rightarrow> (Inl e, st1\<lparr>fs := fs2\<rparr>)
                | Inr fs3 \<Rightarrow> (Inr (), st1\<lparr>fs := fs3\<rparr>))))"

section \<open>The snapshot resolver\<close>

text \<open>
  \<open>insert_id\<close> is the source's \<open>insert_id_\<close>: reading index 4 of a shorter list raises
  \<open>IndexError\<close>.
\<close>

definition insert_id :: "string \<Rightarrow> error + string" where
  "insert_id url =
     (let us = split_str CHR ''/'' url in
      if 4 < length us then Inr (join_str ''/'' (us[4 := us ! 4 @ ''id_'']))
      else Inl IndexError)"

text \<open>Python's truth value of a JSON value, \<open>x.get(key, default)\<close> and \<open>int(x)\<close>.\<close>

definition truthy :: "json \<Rightarrow> bool" where
  "truthy x =
     (case x of JNull \<Rightarrow> False | JBool b \<Rightarrow> b | JNum n \<Rightarrow> n \<noteq> 0 | JStr s \<Rightarrow> s \<noteq> []
      | JArr xs \<Rightarrow> xs \<noteq> [] | JObj kvs \<Rightarrow> kvs \<noteq> [])"

definition py_get :: "json \<Rightarrow> string \<Rightarrow> json \<Rightarrow> error + json" where
  "py_get x k d =
     (case x of
        JObj kvs \<Rightarrow> Inr (case map_of kvs k of None \<Rightarrow> d | Some v \<Rightarrow> v)
      | _ \<Rightarrow> Inl AttributeError)"

definition is_digit :: "char \<Rightarrow> bool" where
  "is_digit c = (c \<in> set ''0123456789'')"

definition is_space :: "char \<Rightarrow> bool" where
  "is_space c = (c \<in> set [CHR '' '', CHR 0x09, CHR 0x0A, CHR 0x0B, CHR 0x0C, CHR 0x0D,
                          CHR 0x1C, CHR 0x1D, CHR 0x1E, CHR 0x1F, CHR 0x85, CHR 0xA0])"

definition strip :: "string \<Rightarrow> string" where
  "strip s = rev (dropWhile is_space (rev (dropWhile is_space s)))"

definition digit_val :: "char \<Rightarrow> int" where
  "digit_val c = int (length (takeWhile (\<lambda>d. d \<noteq> c) ''0123456789''))"

text \<open>Decimal digits, single underscores allowed between them.\<close>

fun valid_digits :: "string \<Rightarrow> bool" where
  "valid_digits [] = False"
| "valid_digits [c] = is_digit c"
| "valid_digits (c # d # r) =
     (is_digit c \<and> (if d = CHR ''_'' then valid_digits r else valid_digits (d # r)))"

definition int_of_str :: "string \<Rightarrow> error + int" where
  "int_of_str s =
     (let t = strip s;
          neg = (t \<noteq> [] \<and> hd t = CHR ''-'');
          ds = (if t \<noteq> [] \<and> (hd t = CHR ''-'' \<or> hd t = CHR ''+'') then tl t else t)
      in if valid_digits ds
         then Inr ((if neg then - 1 else 1) *
                   foldl (\<lambda>a c. 10 * a + digit_val c) 0 (filter is_digit ds))
         else Inl ValueError)"

definition py_int :: "json \<Rightarrow> error + int" where
  "py_int x =
     (case x of JBool b \<Rightarrow> Inr (if b then 1 else 0) | JNum n \<Rightarrow> Inr n
      | JStr s \<Rightarrow> int_of_str s | _ \<Rightarrow> Inl TypeError)"

text \<open>
  The three steps of \<open>get_url\<close> on the decoded answer:
  \<open>.get('archived_snapshots', {}).get('closest', {})\<close>; the test
  \<open>response.get('available') and int(response.get('status')) == 200\<close>, whose second
  operand is evaluated only when the first is true; and
  \<open>strptime(response['timestamp'], ...)\<close>.
\<close>

definition closest :: "json \<Rightarrow> error + json" where
  "closest js =
     (case py_get js ''archived_snapshots'' (JObj []) of
        Inl e \<Rightarrow> Inl e
      | Inr a \<Rightarrow> py_get a ''closest'' (JObj []))"

definition usable :: "json \<Rightarrow> error + bool" where
  "usable response =
     (case py_get response ''available'' JNull of
        Inl e \<Rightarrow> Inl e
      | Inr av \<Rightarrow>
          if \<not> truthy av then Inr False
          else (case py_get response ''status'' JNull of
                  Inl e \<Rightarrow> Inl e
                | Inr s \<Rightarrow> (case py_int s of Inl e \<Rightarrow> Inl e | Inr n \<Rightarrow> Inr (n = 200))))"

definition timestamp_of :: "'fs world \<Rightarrow> json \<Rightarrow> error + string" where
  "timestamp_of w response =
     (case response of
        JObj kvs \<Rightarrow>
          (case map_of kvs ''timestamp'' of
             None \<Rightarrow> Inl KeyError
           | Some (JStr s) \<Rightarrow> strptime w s
           | Some _ \<Rightarrow> Inl TypeError)
      | _ \<Rightarrow> Inl TypeError)"

text \<open>
  \<open>get_url\<close> returns \<open>Inr None\<close> where the source falls off its end (Python's \<open>None\<close>),
  and \<open>Inl e\<close> where an exception leaves it: no call of the source is inside a \<open>try\<close>.
\<close>

definition availability_url :: "string \<Rightarrow> string option \<Rightarrow> string" where
  "availability_url path url_suffix =
     ''https://archive.org/wayback/available?timestamp=20230302&url=https://wiki.bash-hackers.org/''
     @ path @ (case url_suffix of None \<Rightarrow> [] | Some s \<Rightarrow> s)"

definition get_url ::
  "'fs world \<Rightarrow> string \<Rightarrow> string option \<Rightarrow> 'fs state \<Rightarrow> (error + string option) \<times> 'fs state"
  where
  "get_url w path url_suffix st =
     (case available_api w (availability_url path url_suffix) of
           Inl e \<Rightarrow> (Inl e, st)
         | Inr js \<Rightarrow>
             (case closest js of
                Inl e \<Rightarrow> (Inl e, st)
              | Inr response \<Rightarrow>
                  (case usable response of
                     Inl e \<Rightarrow> (Inl e, st)
                   | Inr False \<Rightarrow> (Inr None, st)
                   | Inr True \<Rightarrow>
                       (case timestamp_of w response of
                          Inl e \<Rightarrow> (Inl e, st)
                        | Inr ts \<Rightarrow>
                            (let st1 = logging (Snapshot_info path ts) st in
                             case py_get response ''url'' JNull of
                               Inr (JStr u) \<Rightarrow>
                                 (case insert_id u of
                                    Inl e \<Rightarrow> (Inl e, st1)
                                  | Inr r \<Rightarrow> (Inr (Some r), st1))
                             | _ \<Rightarrow> (Inl AttributeError, st1))))))"

section \<open>The fetch\<close>

definition contains :: "string \<Rightarrow> string \<Rightarrow> bool" where
  "contains sub s = list_ex (\<lambda>k. startswith (drop k s) sub) [0..<Suc (length s)]"

text \<open>
  \<open>get_response\<close> catches \<open>URLError\<close> only, logs it and returns what \<open>logging.error\<close>
  returns, \<open>None\<close>.
\<close>

definition get_response ::
  "'fs world \<Rightarrow> string \<Rightarrow> 'fs state \<Rightarrow> (error + payload option) \<times> 'fs state" where
  "get_response w url st =
     (case urlopen w url (case USERAGENT w of None \<Rightarrow> ''firefox'' | Some a \<Rightarrow> a) of
        Inl e \<Rightarrow> if is_URLError e then (Inr None, logging (Fetch_error e) st) else (Inl e, st)
      | Inr response \<Rightarrow>
          (case content_type response of
             None \<Rightarrow> (Inl TypeError, st)
           | Some ct \<Rightarrow>
               if contains ''image'' ct then (Inr (Some (Bytes (body response))), st)
               else (case (if content_encoding response = Some ''gzip''
                           then gunzip w (body response) else Inr (body response)) of
                       Inl e \<Rightarrow> (Inl e, st)
                     | Inr raw \<Rightarrow>
                         (case decode_utf8 w raw of
                            Inl e \<Rightarrow> (Inl e, st)
                          | Inr s \<Rightarrow> (Inr (Some (Text s)), st)))))"

section \<open>Markup trees\<close>

text \<open>
  \<open>cssselect\<close> with a type selector, or a type selector with an attribute test, returns
  the matching elements among the element and its descendants, in document order.
\<close>

fun descendants_or_self :: "element \<Rightarrow> element list" where
  "descendants_or_self (Element t a x cs) =
     Element t a x cs # concat (map descendants_or_self cs)"

definition cssselect_tag :: "string \<Rightarrow> element \<Rightarrow> element list" where
  "cssselect_tag t e = filter (\<lambda>x. tag x = t) (descendants_or_self e)"

definition cssselect_attr :: "string \<Rightarrow> string \<Rightarrow> element \<Rightarrow> element list" where
  "cssselect_attr t a e =
     filter (\<lambda>x. tag x = t \<and> map_of (attrib x) a \<noteq> None) (descendants_or_self e)"

definition getitem :: "(string \<times> string) list \<Rightarrow> string \<Rightarrow> error + string" where
  "getitem kvs k = (case map_of kvs k of None \<Rightarrow> Inl KeyError | Some v \<Rightarrow> Inr v)"

text \<open>A comprehension whose body may raise: the first exception ends it.\<close>

fun traverse :: "('a \<Rightarrow> error + 'b) \<Rightarrow> 'a list \<Rightarrow> error + 'b list" where
  "traverse f [] = Inr []"
| "traverse f (x # xs) =
     (case f x of
        Inl e \<Rightarrow> Inl e
      | Inr y \<Rightarrow> (case traverse f xs of Inl e \<Rightarrow> Inl e | Inr ys \<Rightarrow> Inr (y # ys)))"

text \<open>
  A \<open>dict\<close> keeps its keys in the order of their first insertion; assigning to a key it
  has replaces the value in place.
\<close>

fun dict_set :: "('k \<times> 'v) list \<Rightarrow> 'k \<Rightarrow> 'v \<Rightarrow> ('k \<times> 'v) list" where
  "dict_set [] k v = [(k, v)]"
| "dict_set ((k', v') # d) k v =
     (if k' = k then (k, v) # d else (k', v') # dict_set d k v)"

section \<open>The content graph (class MD)\<close>

definition MD_DEAD_LINKS :: "string list" where
  "MD_DEAD_LINKS =
     [''commands/builtin/true'', ''commands/builtin/source'', ''commands/builtin/false'',
      ''commands/builtin/continueBreak'', ''commands/builtin/times'',
      ''commands/builtin/command'', ''dict/terms/file'', ''dict/terms/hardlink'',
      ''dict/terms/directory'', ''commands/builtin/alias'', ''commands/builtin/hash'',
      ''commands/builtin/fc'', ''commands/builtin/select'', ''commands/builtin/continuebreak'']"

definition truthy_text :: "string option \<Rightarrow> bool" where
  "truthy_text x = (case x of None \<Rightarrow> False | Some s \<Rightarrow> s \<noteq> [])"

definition MD_get_data :: "'fs world \<Rightarrow> payload \<Rightarrow> error + string" where
  "MD_get_data w response =
     (case fromstring w response of
        Inl e \<Rightarrow> Inl e
      | Inr doc \<Rightarrow>
          (let tas = cssselect_tag ''textarea'' doc in
           if tas \<noteq> [] \<and> truthy_text (etext (hd tas)) then
             (if length tas = 1 then Inr (case etext (hd tas) of None \<Rightarrow> [] | Some s \<Rightarrow> s)
              else Inl AssertionError)
           else Inr (tostring w doc)))"

text \<open>
  The pattern \<open>\[\[([:\/\-\w]+)\<close> is a \<open>str\<close> pattern, so \<open>\w\<close> is the underscore or a
  character for which \<open>str.isalnum\<close> holds: among the characters of the model, the ASCII
  letters and digits and, in the Latin-1 supplement, the letters (the two ordinal
  indicators and the micro sign among them), the superscript digits and the three
  fractions, but not the multiplication and division signs.
  \<open>findall_links\<close> is \<open>re.findall\<close> of the pattern: the matches from left to right, each the
  longest run of such characters after \<open>[[\<close>, the search going on after the match.
\<close>

definition latin1_alnum :: "char list" where
  "latin1_alnum =
     [
      CHR 0xAA, CHR 0xB2, CHR 0xB3, CHR 0xB5, CHR 0xB9, CHR 0xBA, CHR 0xBC, CHR 0xBD,
      CHR 0xBE, CHR 0xC0, CHR 0xC1, CHR 0xC2, CHR 0xC3, CHR 0xC4, CHR 0xC5, CHR 0xC6,
      CHR 0xC7, CHR 0xC8, CHR 0xC9, CHR 0xCA, CHR 0xCB, CHR 0xCC, CHR 0xCD, CHR 0xCE,
      CHR 0xCF, CHR 0xD0, CHR 0xD1, CHR 0xD2, CHR 0xD3, CHR 0xD4, CHR 0xD5, CHR 0xD6,
      CHR 0xD8, CHR 0xD9, CHR 0xDA, CHR 0xDB, CHR 0xDC, CHR 0xDD, CHR 0xDE, CHR 0xDF,
      CHR 0xE0, CHR 0xE1, CHR 0xE2, CHR 0xE3, CHR 0xE4, CHR 0xE5, CHR 0xE6, CHR 0xE7,
      CHR 0xE8, CHR 0xE9, CHR 0xEA, CHR 0xEB, CHR 0xEC, CHR 0xED, CHR 0xEE, CHR 0xEF,
      CHR 0xF0, CHR 0xF1, CHR 0xF2, CHR 0xF3, CHR 0xF4, CHR 0xF5, CHR 0xF6, CHR 0xF8,
      CHR 0xF9, CHR 0xFA, CHR 0xFB, CHR 0xFC, CHR 0xFD, CHR 0xFE, CHR 0xFF]"

definition word_char :: "char \<Rightarrow> bool" where
  "word_char c =
     (c \<in> set ''abcdefghijklmnopqrstuvwxyz'' \<or> c \<in> set ''ABCDEFGHIJKLMNOPQRSTUVWXYZ'' \<or>
      is_digit c \<or> c = CHR ''_'' \<or> c \<in> set latin1_alnum)"

definition link_char :: "char \<Rightarrow> bool" where
  "link_char c = (c = CHR '':'' \<or> c = CHR ''/'' \<or> c = CHR ''-'' \<or> word_char c)"

function findall_links :: "string \<Rightarrow> string list" where
  "findall_links (a # b # rest) =
     (if a = CHR ''['' \<and> b = CHR ''['' \<and> takeWhile link_char rest \<noteq> []
      then takeWhile link_char rest # findall_links (dropWhile link_char rest)
      else findall_links (b # rest))"
| "findall_links [a] = []"
| "findall_links [] = []"
  by pat_completeness auto
termination
  by (relation "measure length") (auto intro: le_less_trans[OF length_dropWhile_le])

definition links_of :: "string \<Rightarrow> string list" where
  "links_of data =
     map (replace_char CHR '':'' CHR ''/'')
       (filter (\<lambda>m. \<not> startswith m ''http'') (findall_links data))"

definition MD_get_paths :: "'fs world \<Rightarrow> path \<Rightarrow> 'fs \<Rightarrow> error + string list" where
  "MD_get_paths w file t =
     (case read_text w file t of Inl e \<Rightarrow> Inl e | Inr data \<Rightarrow> Inr (links_of data))"

section \<open>Materializing one path\<close>

definition falsy :: "payload option \<Rightarrow> bool" where
  "falsy r = (case r of None \<Rightarrow> True | Some (Text s) \<Rightarrow> s = [] | Some (Bytes b) \<Rightarrow> b = [])"

definition target_file :: "string \<Rightarrow> string option \<Rightarrow> path" where
  "target_file path file_suffix =
     (case file_suffix of
        None \<Rightarrow> Path path
      | Some sfx \<Rightarrow>
          if sfx = [] then Path path
          else joinpath (parent (Path path)) (name (Path path) @ ''.'' @ sfx))"

definition export_path ::
  "'fs world \<Rightarrow> string \<Rightarrow> string option \<Rightarrow> string option \<Rightarrow> 'fs state
     \<Rightarrow> (error + path option) \<times> 'fs state" where
  "export_path w path url_suffix file_suffix st =
     (case get_url w path url_suffix st of
        (Inl e, st1) \<Rightarrow> (Inl e, st1)
      | (Inr None, st1) \<Rightarrow> (Inr None, logging (No_url_error path) st1)
      | (Inr (Some url), st1) \<Rightarrow>
          if url = [] then (Inr None, logging (No_url_error path) st1)
          else
            (case get_response w url st1 of
               (Inl e, st2) \<Rightarrow> (Inl e, st2)
             | (Inr r, st2) \<Rightarrow>
                 if falsy r then (Inr None, logging (No_response_error url) st2)
                 else
                   (case (if file_suffix = Some ''md''
                          then (case MD_get_data w (case r of Some x \<Rightarrow> x | None \<Rightarrow> Text []) of
                                  Inl e \<Rightarrow> Inl e | Inr s \<Rightarrow> Inr (Text s))
                          else Inr (case r of Some x \<Rightarrow> x | None \<Rightarrow> Text [])) of
                      Inl e \<Rightarrow> (Inl e, st2)
                    | Inr response \<Rightarrow>
                        (case write_file w (target_file path file_suffix) response st2 of
                           (Inl e, st3) \<Rightarrow> (Inl e, st3)
                         | (Inr u, st3) \<Rightarrow> (Inr (Some (target_file path file_suffix)), st3)))))"

text \<open>
  The loop \<open>for path in ...: export_path(...)\<close>: the return value of \<open>export_path\<close> is
  dropped, an exception ends the loop. (\<open>time.sleep\<close> between the calls changes neither
  the disk nor the log and is left out.)
\<close>

fun export_each ::
  "'fs world \<Rightarrow> string list \<Rightarrow> string option \<Rightarrow> string option \<Rightarrow> 'fs state
     \<Rightarrow> (error + unit) \<times> 'fs state" where
  "export_each w [] us sfx st = (Inr (), st)"
| "export_each w (p # ps) us sfx st =
     (case export_path w p us sfx st of
        (Inl e, st1) \<Rightarrow> (Inl e, st1)
      | (Inr r, st1) \<Rightarrow> export_each w ps us sfx st1)"

text \<open>
  The comprehension \<open>{path: file for file in files for path in get_paths(file) if keep path}\<close>,
  started from the dictionary built so far.
\<close>

fun unexported_dict ::
  "(path \<Rightarrow> error + string list) \<Rightarrow> (string \<Rightarrow> bool) \<Rightarrow> path list
     \<Rightarrow> (string \<times> path) list \<Rightarrow> error + (string \<times> path) list" where
  "unexported_dict get keep [] d = Inr d"
| "unexported_dict get keep (file # files) d =
     (case get file of
        Inl e \<Rightarrow> Inl e
      | Inr paths \<Rightarrow>
          unexported_dict get keep files
            (foldl (\<lambda>d p. if keep p then dict_set d p file else d) d paths))"

definition MD_unexported :: "'fs world \<Rightarrow> 'fs \<Rightarrow> error + (string \<times> path) list" where
  "MD_unexported w t =
     unexported_dict (\<lambda>file. MD_get_paths w file t)
       (\<lambda>path. \<not> exists w (Path (path @ ''.md'')) t) (rglob w ''*.md'' t) []"

definition MD_export :: "'fs world \<Rightarrow> 'fs state \<Rightarrow> (error + unit) \<times> 'fs state" where
  "MD_export w st =
     (case MD_unexported w (fs st) of
        Inl e \<Rightarrow> (Inl e, st)
      | Inr unexported \<Rightarrow>
          if unexported = [] then (Inr (), logging No_items_warning st)
          else export_each w (map fst unexported) (Some ''?do=edit'') (Some ''md'') st)"

definition MD_export_all :: "'fs world \<Rightarrow> 'fs state \<Rightarrow> (error + unit) \<times> 'fs state" where
  "MD_export_all w st =
     (case export_path w ''start'' (Some ''?do=edit'') (Some ''md'') st of
        (Inl e, st1) \<Rightarrow> (Inl e, st1)
      | (Inr start_file, st1) \<Rightarrow>
          (case MD_export w st1 of
             (Inl e, st2) \<Rightarrow> (Inl e, st2)
           | (Inr u, st2) \<Rightarrow> MD_export w st2))"

section \<open>The structural graph (class HTML)\<close>

definition HTML_DEAD_LINKS :: "string list" where
  "HTML_DEAD_LINKS =
     [''pagead/js/adsbygoogle.js'', ''dict/terms/exit_code'', ''dict/terms/filename'',
      ''dict/terms/ctime'', ''dict/terms/positional_parameter'', ''dict/start'',
      ''dict/terms/atime'', ''dict/terms/variable'', ''dict/terms/shebang'',
      ''dict/terms/return_status'']"

text \<open>
  One of the two set comprehensions of \<open>HTML.get_paths\<close>, as the list of its values in
  the order they are computed: for each selector, for each element it selects whose
  attribute starts with a slash, the path of the attribute read as a URL, without its
  leading slashes.
\<close>

definition attr_values :: "string \<Rightarrow> string list \<Rightarrow> element \<Rightarrow> error + string list" where
  "attr_values a tags data =
     (case traverse (\<lambda>e. getitem (attrib e) a)
             (concat (map (\<lambda>t. cssselect_attr t a data) tags)) of
        Inl e \<Rightarrow> Inl e
      | Inr vs \<Rightarrow> Inr (filter (\<lambda>v. startswith v ''/'') vs))"

definition attr_paths ::
  "'fs world \<Rightarrow> string \<Rightarrow> string list \<Rightarrow> element \<Rightarrow> error + string list" where
  "attr_paths w a tags data =
     (case attr_values a tags data of
        Inl e \<Rightarrow> Inl e
      | Inr vs \<Rightarrow>
          traverse (\<lambda>v. case urlparse_path w v of
                          Inl e \<Rightarrow> Inl e
                        | Inr p \<Rightarrow> Inr (lstrip CHR ''/'' p)) vs)"

text \<open>
  A Python \<open>set\<close> of strings is a list without repetition; the order in which Python
  iterates over it is not specified, and the model takes the order of first occurrence.
\<close>

definition HTML_get_paths :: "'fs world \<Rightarrow> path \<Rightarrow> 'fs \<Rightarrow> error + string list" where
  "HTML_get_paths w file t =
     (case read_text w file t of
        Inl e \<Rightarrow> Inl e
      | Inr s \<Rightarrow>
          (case fromstring w (Text s) of
             Inl e \<Rightarrow> Inl e
           | Inr data \<Rightarrow>
               (case attr_paths w ''href'' [''a'', ''link''] data of
                  Inl e \<Rightarrow> Inl e
                | Inr href \<Rightarrow>
                    (case attr_paths w ''src'' [''script'', ''img''] data of
                       Inl e \<Rightarrow> Inl e
                     | Inr src \<Rightarrow> Inr (rev (remdups (rev (href @ src))))))))"

definition HTML_file_paths :: "'fs world \<Rightarrow> 'fs \<Rightarrow> path list" where
  "HTML_file_paths w t =
     sort (filter (\<lambda>f. is_file w f t \<and> suffix_of f = []) (rglob w ''*'' t))"

definition HTML_unexported :: "'fs world \<Rightarrow> 'fs \<Rightarrow> error + (string \<times> path) list" where
  "HTML_unexported w t =
     unexported_dict (\<lambda>file. HTML_get_paths w file t)
       (\<lambda>path. \<not> exists w (Path path) t \<and> \<not> startswith path ''_export'')
       (HTML_file_paths w t) []"

definition HTML_export :: "'fs world \<Rightarrow> 'fs state \<Rightarrow> (error + unit) \<times> 'fs state" where
  "HTML_export w st =
     (case HTML_unexported w (fs st) of
        Inl e \<Rightarrow> (Inl e, st)
      | Inr unexported \<Rightarrow>
          export_each w (map fst unexported) None None
            (logging (Will_export_info (map fst unexported)) st))"

definition page_tools_open :: string where
  "page_tools_open = ''<!-- page-tools -->'' @ [CHR 0x0A]"

definition page_tools_close :: string where
  "page_tools_close = ''<!-- /page-tools -->'' @ [CHR 0x0A]"

definition index_of :: "'a list \<Rightarrow> 'a \<Rightarrow> nat" where
  "index_of xs x = length (takeWhile (\<lambda>y. y \<noteq> x) xs)"

fun comment_out_each ::
  "'fs world \<Rightarrow> path list \<Rightarrow> 'fs state \<Rightarrow> (error + unit) \<times> 'fs state" where
  "comment_out_each w [] st = (Inr (), st)"
| "comment_out_each w (file # files) st =
     (let st1 = logging (File_debug file) st in
      case readlines w file (fs st1) of
        Inl e \<Rightarrow> (Inl e, st1)
      | Inr file_content \<Rightarrow>
          if page_tools_open \<notin> set file_content then comment_out_each w files st1
          else
            (let st2 = logging (Removing_info file) st1;
                 c1 = file_content[index_of file_content page_tools_open :=
                                     ''<!-- page-tools'' @ [CHR 0x0A]]
             in if page_tools_close \<notin> set c1 then (Inl ValueError, st2)
                else
                  (case write_text w file
                          (concat (c1[index_of c1 page_tools_close :=
                                        ''/page-tools -->'' @ [CHR 0x0A]])) (fs st2) of
                     Inl e \<Rightarrow> (Inl e, st2)
                   | Inr t \<Rightarrow> comment_out_each w files (st2\<lparr>fs := t\<rparr>))))"

definition comment_out_menu_tools ::
  "'fs world \<Rightarrow> 'fs state \<Rightarrow> (error + unit) \<times> 'fs state" where
  "comment_out_menu_tools w st =
     comment_out_each w
       (filter (\<lambda>f. is_file w f (fs st) \<and> CHR ''.'' \<notin> set (name f)) (sort (rglob w ''*'' (fs st))))
       st"

text \<open>The comprehension \<open>[f() for _ in range(n)]\<close>: \<open>n\<close> calls, unless one raises.\<close>

fun repeat_pass ::
  "nat \<Rightarrow> ('s \<Rightarrow> (error + unit) \<times> 's) \<Rightarrow> 's \<Rightarrow> (error + unit) \<times> 's" where
  "repeat_pass 0 f st = (Inr (), st)"
| "repeat_pass (Suc n) f st =
     (case f st of
        (Inl e, st1) \<Rightarrow> (Inl e, st1)
      | (Inr u, st1) \<Rightarrow> repeat_pass n f st1)"

text \<open>
  \<open>export_all\<close> declares a parameter \<open>self\<close>, and its last statement calls
  \<open>self.comment_out_menu_tools()\<close>, a function without parameters: the call works when
  \<open>self\<close> is the class itself, passes one argument too many when it is an instance, and
  finds no such attribute on another object. A call with no argument is \<open>None\<close> here.
\<close>

datatype receiver = The_class | An_instance | Another_object

definition HTML_export_all ::
  "'fs world \<Rightarrow> receiver option \<Rightarrow> 'fs state \<Rightarrow> (error + unit) \<times> 'fs state" where
  "HTML_export_all w self st =
     (case self of
        None \<Rightarrow> (Inl TypeError, st)
      | Some slf \<Rightarrow>
          (case export_path w ''start'' None None st of
             (Inl e, st1) \<Rightarrow> (Inl e, st1)
           | (Inr start_file, st1) \<Rightarrow>
               (case (case start_file of
                        None \<Rightarrow> Inl TypeError
                      | Some f \<Rightarrow> symlink_to w (Path ''index.html'') f (fs st1)) of
                  Inl e \<Rightarrow> (Inl e, st1)
                | Inr t \<Rightarrow>
                    (case repeat_pass 5 (HTML_export w) (st1\<lparr>fs := t\<rparr>) of
                       (Inl e, st2) \<Rightarrow> (Inl e, st2)
                     | (Inr u, st2) \<Rightarrow>
                         (case slf of
                            The_class \<Rightarrow> comment_out_menu_tools w st2
                          | An_instance \<Rightarrow> (Inl TypeError, st2)
                          | Another_object \<Rightarrow> (Inl AttributeError, st2))))))"

definition main :: "'fs world \<Rightarrow> 'fs state \<Rightarrow> (error + unit) \<times> 'fs state" where
  "main w st =
     (case HTML_export_all w None st of
        (Inl e, st1) \<Rightarrow> (Inl e, st1)
      | (Inr u, st1) \<Rightarrow> MD_export_all w st1)"

section \<open>A reference world\<close>

text \<open>
  A concrete world to run the program in: the disk is a finite table from the names of
  an entry (below the working directory, which is also the root, so that an absolute
  path and the relative path of the same names are the same entry) to a regular file
  with its content, a directory, or a symbolic link with its target. Its scope: a link
  is followed once, in the last name of a path only, and a link in the middle of a path
  is not a directory; text is written and read unchanged but for the translation of line
  ends when reading. The archive's endpoint, the pages and the parser are tables.
\<close>

datatype node = File string | Dir | Symlink path

type_synonym tree = "(path \<times> node) list"

definition rel :: "path \<Rightarrow> string list" where
  "rel p = filter (\<lambda>c. \<not> is_anchor c) p"

text \<open>
  \<open>walk t cur cs\<close> resolves the names \<open>cs\<close> from the directory \<open>cur\<close>: every name but
  the last must lead through an existing directory.
\<close>

fun walk :: "tree \<Rightarrow> string list \<Rightarrow> string list \<Rightarrow> error + string list" where
  "walk t cur [] = Inr cur"
| "walk t cur (c # cs) =
     (if cur \<noteq> [] \<and> map_of t cur \<noteq> Some Dir
      then Inl (if map_of t cur = None then FileNotFoundError else NotADirectoryError)
      else if c = ''..'' then walk t (butlast cur) cs
      else walk t (cur @ [c]) cs)"

definition lstat :: "tree \<Rightarrow> path \<Rightarrow> error + string list \<times> node" where
  "lstat t p =
     (case walk t [] (rel p) of
        Inl e \<Rightarrow> Inl e
      | Inr q \<Rightarrow>
          if q = [] then Inr ([], Dir)
          else (case map_of t q of None \<Rightarrow> Inl FileNotFoundError | Some n \<Rightarrow> Inr (q, n)))"

definition follow :: "tree \<Rightarrow> string list \<Rightarrow> path \<Rightarrow> error + string list" where
  "follow t q target =
     walk t (if target \<noteq> [] \<and> is_anchor (hd target) then [] else butlast q) (rel target)"

definition stat :: "tree \<Rightarrow> path \<Rightarrow> error + string list \<times> node" where
  "stat t p =
     (case lstat t p of
        Inl e \<Rightarrow> Inl e
      | Inr (q, Symlink target) \<Rightarrow>
          (case follow t q target of
             Inl e \<Rightarrow> Inl e
           | Inr q' \<Rightarrow>
               if q' = [] then Inr ([], Dir)
               else (case map_of t q' of
                       None \<Rightarrow> Inl FileNotFoundError
                     | Some (Symlink x) \<Rightarrow> Inl OSError
                     | Some n \<Rightarrow> Inr (q', n)))
      | Inr (q, n) \<Rightarrow> Inr (q, n))"

definition tree_is_file :: "path \<Rightarrow> tree \<Rightarrow> bool" where
  "tree_is_file p t = (case stat t p of Inr (q, File c) \<Rightarrow> True | _ \<Rightarrow> False)"

definition tree_is_dir :: "path \<Rightarrow> tree \<Rightarrow> bool" where
  "tree_is_dir p t = (case stat t p of Inr (q, Dir) \<Rightarrow> True | _ \<Rightarrow> False)"

definition tree_exists :: "path \<Rightarrow> tree \<Rightarrow> bool" where
  "tree_exists p t = (case stat t p of Inr x \<Rightarrow> True | Inl e \<Rightarrow> False)"

text \<open>
  \<open>os.rename\<close>: the source is not followed when it is a link; a file replaces a file, a
  directory replaces an empty directory, and the entries below a directory move with it.
\<close>

definition below :: "string list \<Rightarrow> string list \<Rightarrow> bool" where
  "below d k = (take (length d) k = d)"

definition move :: "string list \<Rightarrow> string list \<Rightarrow> tree \<Rightarrow> tree" where
  "move s d t =
     map (\<lambda>(k, v). if below s k then (d @ drop (length s) k, v) else (k, v))
       (filter (\<lambda>(k, v). k \<noteq> d) t)"

definition tree_rename :: "path \<Rightarrow> path \<Rightarrow> tree \<Rightarrow> error + tree" where
  "tree_rename src dst t =
     (case lstat t src of
        Inl e \<Rightarrow> Inl e
      | Inr (s, n) \<Rightarrow>
          (case walk t [] (rel dst) of
             Inl e \<Rightarrow> Inl e
           | Inr d \<Rightarrow>
               if s = [] \<or> d = [] then Inl OSError
               else if s = d then Inr t
               else if n = Dir \<and> below s d then Inl OSError
               else (case map_of t d of
                       None \<Rightarrow> Inr (move s d t)
                     | Some Dir \<Rightarrow>
                         if n \<noteq> Dir then Inl IsADirectoryError
                         else if list_ex (\<lambda>(k, v). k \<noteq> d \<and> below d k) t then Inl OSError
                         else Inr (move s d t)
                     | Some x \<Rightarrow>
                         if n = Dir then Inl NotADirectoryError else Inr (move s d t))))"

text \<open>
  \<open>os.mkdir\<close>, and \<open>Path.mkdir(parents=True, exist_ok=True)\<close> as \<open>pathlib\<close> writes it:
  on \<open>FileNotFoundError\<close> the parent is made first and the call repeated; another
  \<open>OSError\<close> is dropped when the path is a directory.
\<close>

definition os_mkdir :: "path \<Rightarrow> tree \<Rightarrow> error + tree" where
  "os_mkdir p t =
     (case walk t [] (rel p) of
        Inl e \<Rightarrow> Inl e
      | Inr q \<Rightarrow>
          if q = [] \<or> map_of t q \<noteq> None then Inl FileExistsError
          else Inr (t @ [(q, Dir)]))"

lemma parent_shorter: "parent p \<noteq> p \<Longrightarrow> length (parent p) < length p"
  by (cases p rule: rev_cases) (auto simp: parent_def)

function tree_mkdir_parents :: "path \<Rightarrow> tree \<Rightarrow> error + tree" where
  "tree_mkdir_parents p t =
     (case os_mkdir p t of
        Inr t' \<Rightarrow> Inr t'
      | Inl e \<Rightarrow>
          if e = FileNotFoundError then
            (if parent p = p then Inl e
             else (case tree_mkdir_parents (parent p) t of
                     Inl e' \<Rightarrow> Inl e'
                   | Inr t1 \<Rightarrow>
                       (case os_mkdir p t1 of
                          Inr t2 \<Rightarrow> Inr t2
                        | Inl e2 \<Rightarrow>
                            if e2 \<noteq> FileNotFoundError \<and> tree_is_dir p t1 then Inr t1
                            else Inl e2)))
          else if tree_is_dir p t then Inr t
          else Inl e)"
  by pat_completeness auto
termination
  by (relation "measure (\<lambda>(p, t). length p)") (auto simp: parent_shorter)

text \<open>\<open>open(path, 'w')\<close> follows a link and replaces or creates a regular file.\<close>

definition tree_write :: "path \<Rightarrow> string \<Rightarrow> tree \<Rightarrow> error + tree" where
  "tree_write p s t =
     (case walk t [] (rel p) of
        Inl e \<Rightarrow> Inl e
      | Inr q \<Rightarrow>
          if q = [] then Inl IsADirectoryError
          else (case map_of t q of
                  Some Dir \<Rightarrow> Inl IsADirectoryError
                | Some (Symlink target) \<Rightarrow>
                    (case follow t q target of
                       Inl e \<Rightarrow> Inl e
                     | Inr q' \<Rightarrow>
                         if q' = [] then Inl IsADirectoryError
                         else (case map_of t q' of
                                 Some Dir \<Rightarrow> Inl IsADirectoryError
                               | Some (Symlink x) \<Rightarrow> Inl OSError
                               | _ \<Rightarrow> Inr (dict_set t q' (File s))))
                | _ \<Rightarrow> Inr (dict_set t q (File s))))"

text \<open>Reading in text mode turns \<open>\r\n\<close> and \<open>\r\<close> into \<open>\n\<close>.\<close>

fun universal_newlines :: "string \<Rightarrow> string" where
  "universal_newlines [] = []"
| "universal_newlines [c] = (if c = CHR 0x0D then [CHR 0x0A] else [c])"
| "universal_newlines (c # d # r) =
     (if c = CHR 0x0D then
        (if d = CHR 0x0A then CHR 0x0A # universal_newlines r
         else CHR 0x0A # universal_newlines (d # r))
      else c # universal_newlines (d # r))"

definition tree_read_text :: "path \<Rightarrow> tree \<Rightarrow> error + string" where
  "tree_read_text p t =
     (case stat t p of
        Inl e \<Rightarrow> Inl e
      | Inr (q, File c) \<Rightarrow> Inr (universal_newlines c)
      | Inr (q, n) \<Rightarrow> Inl IsADirectoryError)"

text \<open>\<open>readlines\<close>: the lines of a text, each with its line end.\<close>

fun keep_lines :: "string \<Rightarrow> string list" where
  "keep_lines [] = []"
| "keep_lines (c # r) =
     (if c = CHR 0x0A then [c] # keep_lines r
      else (case keep_lines r of [] \<Rightarrow> [[c]] | l # ls \<Rightarrow> (c # l) # ls))"

definition tree_readlines :: "path \<Rightarrow> tree \<Rightarrow> error + string list" where
  "tree_readlines p t =
     (case tree_read_text p t of Inl e \<Rightarrow> Inl e | Inr s \<Rightarrow> Inr (keep_lines s))"

text \<open>
  \<open>fnmatch\<close> for patterns of \<open>*\<close>, \<open>?\<close> and plain characters; \<open>rglob\<close> lists the entries
  of the table whose last name matches, in the table's order.
\<close>

fun fnmatch :: "string \<Rightarrow> string \<Rightarrow> bool" where
  "fnmatch [] s = (s = [])"
| "fnmatch (p # ps) s =
     (if p = CHR ''*'' then list_ex (\<lambda>k. fnmatch ps (drop k s)) [0..<Suc (length s)]
      else (case s of [] \<Rightarrow> False | c # cs \<Rightarrow> (p = CHR ''?'' \<or> p = c) \<and> fnmatch ps cs))"

definition tree_rglob :: "string \<Rightarrow> tree \<Rightarrow> path list" where
  "tree_rglob pat t = filter (\<lambda>k. k \<noteq> [] \<and> fnmatch pat (last k)) (map fst t)"

definition tree_symlink_to :: "path \<Rightarrow> path \<Rightarrow> tree \<Rightarrow> error + tree" where
  "tree_symlink_to link target t =
     (case walk t [] (rel link) of
        Inl e \<Rightarrow> Inl e
      | Inr q \<Rightarrow>
          if q = [] \<or> map_of t q \<noteq> None then Inl FileExistsError
          else Inr (t @ [(q, Symlink target)]))"

text \<open>A serialization of a markup tree, for the reference world's \<open>tostring\<close>.\<close>

fun serialize :: "element \<Rightarrow> string" where
  "serialize (Element t a x cs) =
     ''<'' @ t @ concat (map (\<lambda>(k, v). '' '' @ k @ ''='' @ [CHR 0x22] @ v @ [CHR 0x22]) a) @ ''>''
     @ (case x of None \<Rightarrow> [] | Some s \<Rightarrow> s) @ concat (map serialize cs) @ ''</'' @ t @ ''>''"

text \<open>
  The path of a reference that starts with a slash, as \<open>urlparse\<close> splits it: after the
  host of a reference that starts with two slashes, up to the query or the fragment,
  without the parameters of the last segment.
\<close>

definition reference_url_path :: "string \<Rightarrow> string" where
  "reference_url_path v =
     (let u = (if startswith v ''//'' then dropWhile (\<lambda>c. c \<notin> set ''/?#'') (drop 2 v) else v);
          p = takeWhile (\<lambda>c. c \<notin> set ''?#'') u;
          k = length p - length (takeWhile (\<lambda>c. c \<noteq> CHR ''/'') (rev p))
      in take k p @ takeWhile (\<lambda>c. c \<noteq> CHR '';'') (drop k p))"

definition table :: "('a \<times> 'b) list \<Rightarrow> error \<Rightarrow> 'a \<Rightarrow> error + 'b" where
  "table kvs e k = (case map_of kvs k of None \<Rightarrow> Inl e | Some v \<Rightarrow> Inr v)"

definition payload_text :: "payload \<Rightarrow> string" where
  "payload_text r = (case r of Text s \<Rightarrow> s | Bytes b \<Rightarrow> b)"

definition reference_world ::
  "(string \<times> json) list \<Rightarrow> (string \<times> http_response) list \<Rightarrow> (string \<times> element) list
     \<Rightarrow> tree world" where
  "reference_world api pages docs =
     \<lparr> is_file = tree_is_file,
       exists = tree_exists,
       rename = tree_rename,
       mkdir_parents = tree_mkdir_parents,
       write_text = tree_write,
       write_bytes = tree_write,
       read_text = tree_read_text,
       readlines = tree_readlines,
       rglob = tree_rglob,
       symlink_to = tree_symlink_to,
       available_api = table api URLError,
       urlopen = (\<lambda>url agent. table pages URLError url),
       USERAGENT = None,
       gunzip = (\<lambda>b. Inl BadGzipFile),
       decode_utf8 = Inr,
       strptime = (\<lambda>s. if length s = 14 \<and> list_all is_digit s then Inr s else Inl ValueError),
       fromstring = (\<lambda>r. table docs ParserError (payload_text r)),
       tostring = serialize,
       urlparse_path = (\<lambda>v. Inr (reference_url_path v)) \<rparr>"

section \<open>Notions used in the statements\<close>

text \<open>
  The character class of the bracket-link pattern as the specification words it:
  letters, digits, \<open>-\<close>, \<open>/\<close> and \<open>:\<close>.
\<close>

definition spec_link_char :: "char \<Rightarrow> bool" where
  "spec_link_char c =
     (c \<in> set ''abcdefghijklmnopqrstuvwxyz'' \<or> c \<in> set ''ABCDEFGHIJKLMNOPQRSTUVWXYZ'' \<or>
      is_digit c \<or> c = CHR ''-'' \<or> c = CHR ''/'' \<or> c = CHR '':'')"

text \<open>
  \<open>link_at data m\<close>: somewhere in \<open>data\<close> the brackets \<open>[[\<close> are followed by \<open>m\<close>, a
  run of characters of the pattern's class that is not empty and goes on as far as
  such characters go.
\<close>

definition link_at :: "string \<Rightarrow> string \<Rightarrow> bool" where
  "link_at data m =
     (\<exists>pre post. data = pre @ ''[['' @ m @ post \<and> m \<noteq> [] \<and> list_all link_char m \<and>
        (post = [] \<or> \<not> link_char (hd post)))"

text \<open>
  The matches of the pattern by position: \<open>tails data\<close> lists the suffixes of the text
  from left to right, \<open>link_start s\<close> holds of a suffix that begins with \<open>[[\<close> and a
  character of the class, and \<open>link_run s\<close> is the run of such characters after the
  brackets.
\<close>

fun tails :: "'a list \<Rightarrow> 'a list list" where
  "tails [] = []"
| "tails (x # xs) = (x # xs) # tails xs"

definition link_start :: "string \<Rightarrow> bool" where
  "link_start s =
     (case s of a # b # c # r \<Rightarrow> a = CHR ''['' \<and> b = CHR ''['' \<and> link_char c | _ \<Rightarrow> False)"

definition link_run :: "string \<Rightarrow> string" where
  "link_run s = takeWhile link_char (drop 2 s)"

text \<open>
  The values \<open>HTML.get_paths\<close> keeps: the \<open>href\<close> of an \<open>a\<close> or \<open>link\<close> element and the
  \<open>src\<close> of a \<open>script\<close> or \<open>img\<close> element of the document, when it starts with a
  slash; a value that starts with two slashes is one of them.
\<close>

definition link_values :: "element \<Rightarrow> string set" where
  "link_values data =
     {v. \<exists>e \<in> set (descendants_or_self data).
           ((tag e = ''a'' \<or> tag e = ''link'') \<and> map_of (attrib e) ''href'' = Some v \<or>
            (tag e = ''script'' \<or> tag e = ''img'') \<and> map_of (attrib e) ''src'' = Some v) \<and>
           startswith v ''/''}"

text \<open>
  A root-relative reference as the specification words it: it begins with a slash and
  is not the reference to another host that begins with two.
\<close>

definition root_relative :: "string \<Rightarrow> bool" where
  "root_relative v = (startswith v ''/'' \<and> \<not> startswith v ''//'')"

text \<open>The number of passes the structural driver has announced in a log.\<close>

definition announced :: "event list \<Rightarrow> nat" where
  "announced l = length (filter (\<lambda>e. case e of Will_export_info ps \<Rightarrow> True | _ \<Rightarrow> False) l)"

section \<open>Example data\<close>

text \<open>
  The answer of the availability endpoint for a page with a snapshot, the replay URL of
  the start page, and a world whose archive holds that one answer.
\<close>

definition snapshot_answer :: "string \<Rightarrow> string \<Rightarrow> string \<Rightarrow> json" where
  "snapshot_answer status ts url =
     JObj [(''url'', JStr ''https://wiki.bash-hackers.org/''),
           (''archived_snapshots'',
            JObj [(''closest'',
                   JObj [(''status'', JStr status), (''available'', JBool True),
                         (''url'', JStr url), (''timestamp'', JStr ts)])])]"

definition replay_start :: string where
  "replay_start =
     ''http://web.archive.org/web/20230302000000/https://wiki.bash-hackers.org/start''"

definition start_world :: "tree world" where
  "start_world =
     reference_world
       [(availability_url ''start'' None,
         snapshot_answer ''200'' ''20230302000000'' replay_start)] [] []"

definition links_page :: string where
  "links_page =
     ''see [[commands:builtin:echo]], [[http://example.com]] and [[dict:terms:exit_code]]''"

text \<open>
  The edit view of the start page as the archive replays it, its markup tree, a page with
  two text areas, and a world that serves the edit view.
\<close>

definition edit_page :: string where
  "edit_page = ''<html><body><textarea>raw [[start]]</textarea></body></html>''"

definition edit_tree :: element where
  "edit_tree =
     Element ''html'' [] None
       [Element ''body'' [] None [Element ''textarea'' [] (Some ''raw [[start]]'') []]]"

definition two_areas_page :: string where
  "two_areas_page = ''<div><textarea>one</textarea><textarea>two</textarea></div>''"

definition two_areas_tree :: element where
  "two_areas_tree =
     Element ''div'' [] None
       [Element ''textarea'' [] (Some ''one'') [], Element ''textarea'' [] (Some ''two'') []]"

definition replay_edit :: string where
  "replay_edit =
     ''http://web.archive.org/web/20230302000000/https://wiki.bash-hackers.org/start?do=edit''"

definition replay_edit_id :: string where
  "replay_edit_id =
     ''http://web.archive.org/web/20230302000000id_/https://wiki.bash-hackers.org/start?do=edit''"

definition edit_world :: "tree world" where
  "edit_world =
     reference_world
       [(availability_url ''start'' (Some ''?do=edit''),
         snapshot_answer ''200'' ''20230302000000'' replay_edit)]
       [(replay_edit_id,
         \<lparr>content_type = Some ''text/html; charset=utf-8'', content_encoding = None,
          body = edit_page\<rparr>)]
       [(edit_page, edit_tree), (two_areas_page, two_areas_tree)]"

text \<open>A structural page, its markup tree, and a disk that holds the page as \<open>start\<close>.\<close>

definition html_page :: string where
  "html_page = ''<html>the start page</html>''"

definition html_tree :: element where
  "html_tree =
     Element ''html'' [] None
       [Element ''head'' [] None
          [Element ''link'' [(''rel'', ''stylesheet''), (''href'', ''/lib/exe/css.php?t=x'')] None [],
           Element ''script''
             [(''src'', ''//pagead2.googlesyndication.com/pagead/js/adsbygoogle.js'')] None []],
        Element ''body'' [] None
          [Element ''a'' [(''href'', ''/commands/builtin/echo'')] (Some ''echo'') [],
           Element ''a'' [(''href'', ''http://example.com/'')] (Some ''elsewhere'') [],
           Element ''a'' [(''href'', ''#top'')] (Some ''top'') [],
           Element ''a'' [(''href'', ''/commands/builtin/echo'')] (Some ''echo again'') [],
           Element ''img'' [(''src'', ''/lib/images/logo.png'')] None []]]"

definition html_world :: "tree world" where
  "html_world = reference_world [] [] [(html_page, html_tree)]"

definition html_disk :: tree where
  "html_disk = [([''start''], File html_page)]"

text \<open>
  A page that refers to itself only, with its markup tree; a disk with a structural and
  a content document that refer to pages not on it; a disk on which every reference of
  its documents is there; and the world whose parser knows the two structural pages.
\<close>

definition self_page :: string where
  "self_page = ''<html>back to the start page</html>''"

definition self_tree :: element where
  "self_tree =
     Element ''html'' [] None
       [Element ''body'' [] None [Element ''a'' [(''href'', ''/start'')] (Some ''start'') []]]"

definition pages_world :: "tree world" where
  "pages_world = reference_world [] [] [(html_page, html_tree), (self_page, self_tree)]"

definition open_disk :: tree where
  "open_disk =
     [([''start''], File html_page),
      ([''start.md''], File ''[[start]] [[commands:builtin:true]]'')]"

definition closed_disk :: tree where
  "closed_disk = [([''start''], File self_page), ([''start.md''], File ''[[start]]'')]"

text \<open>
  A world whose archive holds the start page, a structural page that refers to itself
  only.
\<close>

definition replay_start_id :: string where
  "replay_start_id =
     ''http://web.archive.org/web/20230302000000id_/https://wiki.bash-hackers.org/start''"

definition self_world :: "tree world" where
  "self_world =
     reference_world
       [(availability_url ''start'' None,
         snapshot_answer ''200'' ''20230302000000'' replay_start)]
       [(replay_start_id,
         \<lparr>content_type = Some ''text/html; charset=utf-8'', content_encoding = None,
          body = self_page\<rparr>)]
       [(self_page, self_tree)]"

definition self_disk :: tree where
  "self_disk = [([''start''], File self_page), ([''index.html''], Symlink [''start''])]"

text \<open>
  A structural page whose only reference is a script on another host, written without
  its scheme.
\<close>

definition ads_page :: string where
  "ads_page = ''<html>a page with an advertisement</html>''"

definition ads_tree :: element where
  "ads_tree =
     Element ''html'' [] None
       [Element ''script''
          [(''src'', ''//pagead2.googlesyndication.com/pagead/js/adsbygoogle.js'')] None []]"

definition ads_world :: "tree world" where
  "ads_world = reference_world [] [] [(ads_page, ads_tree)]"

definition ads_disk :: tree where
  "ads_disk = [([''start''], File ads_page)]"

text \<open>
  The edit view of a page with a given raw markup, and the archive's answer, replay
  URL and response for the edit view of a path.
\<close>

definition edit_view :: "string \<Rightarrow> string" where
  "edit_view raw = ''<html><textarea>'' @ raw @ ''</textarea></html>''"

definition edit_view_tree :: "string \<Rightarrow> element" where
  "edit_view_tree raw = Element ''html'' [] None [Element ''textarea'' [] (Some raw) []]"

definition replay_of :: "string \<Rightarrow> string \<Rightarrow> string" where
  "replay_of marker path =
     ''http://web.archive.org/web/20230302000000'' @ marker @
     ''/https://wiki.bash-hackers.org/'' @ path @ ''?do=edit''"

definition archived :: "string \<Rightarrow> string \<times> json" where
  "archived path =
     (availability_url path (Some ''?do=edit''),
      snapshot_answer ''200'' ''20230302000000'' (replay_of [] path))"

definition served :: "string \<Rightarrow> string \<Rightarrow> string \<times> http_response" where
  "served path raw =
     (replay_of ''id_'' path,
      \<lparr>content_type = Some ''text/html; charset=utf-8'', content_encoding = None,
       body = edit_view raw\<rparr>)"

text \<open>
  A chain of content pages: the start page on the disk refers to \<open>a\<close>, the archived
  page \<open>a\<close> refers to \<open>b\<close>, the archived page \<open>b\<close> to nothing.
\<close>

definition chain_world :: "tree world" where
  "chain_world =
     reference_world
       [archived ''a'', archived ''b'']
       [served ''a'' ''[[b]]'', served ''b'' ''the end'']
       [(edit_view ''[[b]]'', edit_view_tree ''[[b]]''),
        (edit_view ''the end'', edit_view_tree ''the end'')]"

definition chain_disk :: tree where
  "chain_disk = [([''start.md''], File ''[[a]]'')]"

text \<open>
  A content document that refers to the namespace \<open>a:\<close>, on a disk that holds the file
  \<open>export_path\<close> writes for that reference.
\<close>

definition namespace_disk :: tree where
  "namespace_disk = [([''start.md''], File ''[[a:]]''), ([''a.md''], File ''the page a'')]"

text \<open>
  A world whose archive holds a page of the list of dead links, with the two structural
  pages known to its parser, and a disk whose only document refers to that page.
\<close>

definition dead_world :: "tree world" where
  "dead_world =
     reference_world
       [archived ''commands/builtin/true'']
       [served ''commands/builtin/true'' ''the true builtin'']
       [(html_page, html_tree), (self_page, self_tree),
        (edit_view ''the true builtin'', edit_view_tree ''the true builtin'')]"

definition dead_disk :: tree where
  "dead_disk = [([''start.md''], File ''[[commands:builtin:true]]'')]"

section \<open>Collision handling (C1)\<close>

lemma write_file_on_collision:
  assumes "is_file w (parent file) (fs st)"
  shows "write_file w file response st =
     (let target = joinpath (parent (parent file)) (''_'' @ stem (parent file));
          st1 = logging (Rename_warning (parent file) target) st
      in case rename w (parent file) target (fs st) of
           Inl e \<Rightarrow> (Inl e, st1)
         | Inr t1 \<Rightarrow>
             (case mkdir_parents w (parent target) t1 of
                Inl e \<Rightarrow> (Inl e, st1\<lparr>fs := t1\<rparr>)
              | Inr t2 \<Rightarrow>
                  (case (case response of
                           Text s \<Rightarrow> write_text w target s t2
                         | Bytes b \<Rightarrow> write_bytes w target b t2) of
                     Inl e \<Rightarrow> (Inl e, st1\<lparr>fs := t2\<rparr>)
                   | Inr t3 \<Rightarrow> (Inr (), st1\<lparr>fs := t3\<rparr>))))"
  using assms
  by (simp add: write_file_def rename_if_collision_def logging_def Let_def
      split: sum.splits payload.splits)

text \<open>
  C1. With a file \<open>a/b\<close> holding \<open>old\<close>, writing \<open>new\<close> to \<open>a/b/c\<close> renames \<open>a/b\<close> to
  \<open>a/_b\<close>, takes the renamed path as the file to write, and writes \<open>new\<close> over it: no
  \<open>a/b/c\<close> is made and \<open>old\<close> is on the disk no more.
\<close>

theorem write_file_collision_overwrites:
  "write_file (reference_world [] [] []) (Path ''a/b/c'') (Text ''new'')
     \<lparr>fs = [([''a''], Dir), ([''a'', ''b''], File ''old'')], logs = []\<rparr>
   = (Inr (),
      \<lparr>fs = [([''a''], Dir), ([''a'', ''_b''], File ''new'')],
        logs = [Rename_warning [''a'', ''b''] [''a'', ''_b'']]\<rparr>)"
  by code_simp

section \<open>Failures of the resolver (C3)\<close>

lemma get_url_raises:
  "available_api w (availability_url path url_suffix) = Inl e \<Longrightarrow>
     get_url w path url_suffix st = (Inl e, st)"
  by (simp add: get_url_def)

lemma get_url_no_snapshot:
  assumes "available_api w (availability_url path url_suffix) = Inr (JObj kvs)"
    and "map_of kvs ''archived_snapshots'' = None \<or>
         map_of kvs ''archived_snapshots'' = Some (JObj [])"
  shows "get_url w path url_suffix st = (Inr None, st)"
  using assms
  by (auto simp: get_url_def closest_def usable_def py_get_def truthy_def)

lemma get_url_other_status:
  assumes "available_api w (availability_url path url_suffix) = Inr js"
    and "closest js = Inr (JObj kvs)"
    and "map_of kvs ''status'' = Some s" and "py_int s = Inr n" and "n \<noteq> 200"
  shows "get_url w path url_suffix st = (Inr None, st)"
  using assms
  by (auto simp: get_url_def usable_def py_get_def split: option.splits)

text \<open>
  C3. When the request to the availability endpoint fails, \<open>get_url\<close> raises the
  transport's exception, where \<open>get_response\<close> catches the same exception of its own
  request, logs it and returns \<open>None\<close>.
\<close>

theorem get_url_transport_failure_raises:
  "get_url (reference_world [] [] []) ''start'' (Some ''?do=edit'') \<lparr>fs = [], logs = []\<rparr>
     = (Inl URLError, \<lparr>fs = [], logs = []\<rparr>)
   \<and> get_response (reference_world [] [] []) ''http://web.archive.org/web/2id_/x''
       \<lparr>fs = [], logs = []\<rparr>
     = (Inr None, \<lparr>fs = [], logs = [Fetch_error URLError]\<rparr>)"
  by code_simp

section \<open>The entry point (C4)\<close>

text \<open>
  C4. \<open>main\<close> calls \<open>HTML.export_all()\<close> with no argument for its parameter \<open>self\<close>:
  the call raises \<open>TypeError\<close> with the disk and the log as they were, and
  \<open>MD.export_all\<close> is not reached.
\<close>

theorem main_raises_TypeError: "main w st = (Inl TypeError, st)"
  by (simp add: main_def HTML_export_all_def)

section \<open>The replay URL (C10)\<close>

lemma split_str_no_sep: "c \<notin> set x \<Longrightarrow> split_str c x = [x]"
  by (induction x) auto

lemma split_str_append_sep:
  "c \<notin> set x \<Longrightarrow> split_str c (x @ c # r) = x # split_str c r"
  by (induction x) (auto split: list.splits)

lemma split_join:
  "xs \<noteq> [] \<Longrightarrow> \<forall>x\<in>set xs. c \<notin> set x \<Longrightarrow> split_str c (join_str [c] xs) = xs"
  by (induction "[c]" xs rule: join_str.induct) (auto simp: split_str_no_sep split_str_append_sep)

lemma split_str_parts_no_sep: "x \<in> set (split_str c s) \<Longrightarrow> c \<notin> set x"
  by (induction s arbitrary: x) (auto split: if_splits list.splits)

lemma insert_id_split:
  assumes "4 < length (split_str CHR ''/'' u)"
  shows "insert_id u =
           Inr (join_str ''/'' ((split_str CHR ''/'' u)[4 := split_str CHR ''/'' u ! 4 @ ''id_'']))"
    and "split_str CHR ''/''
           (join_str ''/'' ((split_str CHR ''/'' u)[4 := split_str CHR ''/'' u ! 4 @ ''id_'']))
         = (split_str CHR ''/'' u)[4 := split_str CHR ''/'' u ! 4 @ ''id_'']"
proof -
  let ?us = "split_str CHR ''/'' u"
  let ?vs = "?us[4 := ?us ! 4 @ ''id_'']"
  show "insert_id u = Inr (join_str ''/'' ?vs)"
    using assms by (simp add: insert_id_def Let_def)
  have "\<forall>x\<in>set ?vs. CHR ''/'' \<notin> set x"
  proof
    fix x assume "x \<in> set ?vs"
    then have "x = ?us ! 4 @ ''id_'' \<or> x \<in> set ?us"
      using set_update_subset_insert[of ?us 4 "?us ! 4 @ ''id_''"] by auto
    moreover have "CHR ''/'' \<notin> set (?us ! 4)"
      using assms split_str_parts_no_sep[of "?us ! 4" "CHR ''/''" u] by simp
    ultimately show "CHR ''/'' \<notin> set x"
      using split_str_parts_no_sep[of x "CHR ''/''" u] by auto
  qed
  moreover have "?vs \<noteq> []" using assms by auto
  ultimately show "split_str CHR ''/'' (join_str ''/'' ?vs) = ?vs"
    using split_join[of ?vs "CHR ''/''"] by simp
qed

text \<open>
  C10. When the closest snapshot is available with status 200, its timestamp parses and
  its URL has the archive's form (at least five parts between slashes), \<open>get_url\<close>
  logs the timestamp and returns the URL with \<open>id_\<close> appended to its fifth part, the
  timestamp of the replay path, the other parts unchanged.
\<close>

theorem get_url_inserts_id:
  assumes "available_api w (availability_url path url_suffix) = Inr js"
    and "closest js = Inr (JObj kvs)"
    and "map_of kvs ''available'' = Some a" and "truthy a"
    and "map_of kvs ''status'' = Some s" and "py_int s = Inr 200"
    and "map_of kvs ''timestamp'' = Some (JStr ts)" and "strptime w ts = Inr printed"
    and "map_of kvs ''url'' = Some (JStr u)" and "4 < length (split_str CHR ''/'' u)"
  shows "\<exists>r. get_url w path url_suffix st
               = (Inr (Some r), logging (Snapshot_info path printed) st)
           \<and> split_str CHR ''/'' r
               = (split_str CHR ''/'' u)[4 := split_str CHR ''/'' u ! 4 @ ''id_'']"
proof -
  have "usable (JObj kvs) = Inr True"
    using assms(3-6) by (simp add: usable_def py_get_def)
  moreover have "timestamp_of w (JObj kvs) = Inr printed"
    using assms(7,8) by (simp add: timestamp_of_def)
  moreover have "py_get (JObj kvs) ''url'' JNull = Inr (JStr u)"
    using assms(9) by (simp add: py_get_def)
  ultimately have
    "get_url w path url_suffix st =
       (Inr (Some (join_str ''/''
          ((split_str CHR ''/'' u)[4 := split_str CHR ''/'' u ! 4 @ ''id_'']))),
        logging (Snapshot_info path printed) st)"
    using assms(1,2) insert_id_split(1)[OF assms(10)] by (simp add: get_url_def Let_def)
  then show ?thesis
    using insert_id_split(2)[OF assms(10)] by blast
qed

theorem get_url_inserts_id_witness:
  "\<exists>r. get_url start_world ''start'' None \<lparr>fs = [], logs = []\<rparr>
          = (Inr (Some r), \<lparr>fs = [], logs = [Snapshot_info ''start'' ''20230302000000'']\<rparr>)
      \<and> split_str CHR ''/'' r
          = [''http:'', [], ''web.archive.org'', ''web'', ''20230302000000id_'', ''https:'', [],
             ''wiki.bash-hackers.org'', ''start'']"
proof -
  let ?kvs = "[(''status'', JStr ''200''), (''available'', JBool True),
               (''url'', JStr replay_start), (''timestamp'', JStr ''20230302000000'')]"
  have h1: "available_api start_world (availability_url ''start'' None)
              = Inr (snapshot_answer ''200'' ''20230302000000'' replay_start)"
    by (simp add: start_world_def reference_world_def table_def)
  have h2: "closest (snapshot_answer ''200'' ''20230302000000'' replay_start) = Inr (JObj ?kvs)"
    by (simp add: closest_def snapshot_answer_def py_get_def)
  have h3: "map_of ?kvs ''available'' = Some (JBool True)" by simp
  have h4: "truthy (JBool True)" by (simp add: truthy_def)
  have h5: "map_of ?kvs ''status'' = Some (JStr ''200'')" by simp
  have h6: "py_int (JStr ''200'') = Inr 200" by code_simp
  have h7: "map_of ?kvs ''timestamp'' = Some (JStr ''20230302000000'')" by simp
  have h8: "strptime start_world ''20230302000000'' = Inr ''20230302000000''"
    by (simp add: start_world_def reference_world_def is_digit_def)
  have h9: "map_of ?kvs ''url'' = Some (JStr replay_start)" by simp
  have sp: "split_str CHR ''/'' replay_start
      = [''http:'', [], ''web.archive.org'', ''web'', ''20230302000000'', ''https:'', [],
             ''wiki.bash-hackers.org'', ''start'']"
    by code_simp
  have h10: "4 < length (split_str CHR ''/'' replay_start)" by (simp add: sp)
  show ?thesis
    using get_url_inserts_id[OF h1 h2 h3 h4 h5 h6 h7 h8 h9 h10, of "\<lparr>fs = [], logs = []\<rparr>"]
    by (simp add: sp logging_def)
qed

section \<open>Cross-references of a content document (C7)\<close>

lemma bracket_not_link: "\<not> link_char CHR ''[''"
  by (simp add: link_char_def word_char_def is_digit_def latin1_alnum_def)

lemma takeWhile_run:
  "list_all P m \<Longrightarrow> post = [] \<or> \<not> P (hd post) \<Longrightarrow> takeWhile P (m @ post) = m"
  by (induction m) (auto simp: takeWhile_eq_Nil_iff neq_Nil_conv)

lemma dropWhile_stop:
  "ys \<noteq> [] \<Longrightarrow> \<not> P (hd ys) \<Longrightarrow> dropWhile P (xs @ ys) = dropWhile P xs @ ys"
  by (induction xs) (auto simp: neq_Nil_conv)

lemma findall_links_sound: "m \<in> set (findall_links data) \<Longrightarrow> link_at data m"
proof (induction data rule: findall_links.induct)
  case (1 a b rest)
  show ?case
  proof (cases "a = CHR ''['' \<and> b = CHR ''['' \<and> takeWhile link_char rest \<noteq> []")
    case True
    with 1(3) have "m = takeWhile link_char rest \<or> m \<in> set (findall_links (dropWhile link_char rest))"
      by auto
    then show ?thesis
    proof
      assume m: "m = takeWhile link_char rest"
      have "a # b # rest = [] @ ''[['' @ m @ dropWhile link_char rest"
        using True m by simp
      moreover have "list_all link_char m"
        using m by (simp add: list_all_iff) (meson set_takeWhileD)
      moreover have "dropWhile link_char rest = [] \<or> \<not> link_char (hd (dropWhile link_char rest))"
        using hd_dropWhile[of link_char rest] by auto
      ultimately show ?thesis using True m unfolding link_at_def by blast
    next
      assume "m \<in> set (findall_links (dropWhile link_char rest))"
      then have "link_at (dropWhile link_char rest) m" using 1(1) True by simp
      then obtain pre post where
        "dropWhile link_char rest = pre @ ''[['' @ m @ post" "m \<noteq> []" "list_all link_char m"
        "post = [] \<or> \<not> link_char (hd post)"
        unfolding link_at_def by blast
      then have "a # b # rest = (a # b # takeWhile link_char rest @ pre) @ ''[['' @ m @ post"
        using takeWhile_dropWhile_id[of link_char rest] by (metis append.assoc append_Cons)
      then show ?thesis
        using \<open>m \<noteq> []\<close> \<open>list_all link_char m\<close> \<open>post = [] \<or> \<not> link_char (hd post)\<close>
        unfolding link_at_def by blast
    qed
  next
    case False
    with 1(3) have "m \<in> set (findall_links (b # rest))" by auto
    then have "link_at (b # rest) m" using 1(2) False by simp
    then obtain pre post where
      "b # rest = pre @ ''[['' @ m @ post" "m \<noteq> []" "list_all link_char m"
      "post = [] \<or> \<not> link_char (hd post)"
      unfolding link_at_def by blast
    then have "a # b # rest = (a # pre) @ ''[['' @ m @ post" by simp
    then show ?thesis
      using \<open>m \<noteq> []\<close> \<open>list_all link_char m\<close> \<open>post = [] \<or> \<not> link_char (hd post)\<close>
      unfolding link_at_def by blast
  qed
qed simp_all

lemma findall_links_complete_aux:
  "data = pre @ ''[['' @ m @ post \<Longrightarrow> m \<noteq> [] \<Longrightarrow> list_all link_char m \<Longrightarrow>
   post = [] \<or> \<not> link_char (hd post) \<Longrightarrow> m \<in> set (findall_links data)"
proof (induction data arbitrary: pre rule: findall_links.induct)
  case (1 a b rest)
  have run: "takeWhile link_char (m @ post) = m"
    using takeWhile_run[OF 1(5,6)] .
  show ?case
  proof (cases "a = CHR ''['' \<and> b = CHR ''['' \<and> takeWhile link_char rest \<noteq> []")
    case True
    show ?thesis
    proof (cases pre)
      case Nil
      then have "rest = m @ post" using 1(3) by simp
      then show ?thesis using True run by simp
    next
      case (Cons x pre')
      then have eq1: "b # rest = pre' @ ''[['' @ m @ post" using 1(3) by simp
      have "pre' \<noteq> []"
      proof
        assume "pre' = []"
        then have "rest = CHR ''['' # m @ post" using eq1 by simp
        then show False using True bracket_not_link by simp
      qed
      then obtain y pre'' where p': "pre' = y # pre''" by (cases pre') auto
      then have eq2: "rest = pre'' @ ''[['' @ m @ post" using eq1 by simp
      have "dropWhile link_char rest = dropWhile link_char pre'' @ ''[['' @ m @ post"
        using dropWhile_stop[of "''[['' @ m @ post" link_char pre''] bracket_not_link eq2
        by simp
      then have "m \<in> set (findall_links (dropWhile link_char rest))"
        using 1(1)[OF True _ 1(4,5,6)] by simp
      then show ?thesis using True by simp
    qed
  next
    case False
    show ?thesis
    proof (cases pre)
      case Nil
      then have "a = CHR ''['' \<and> b = CHR ''['' \<and> rest = m @ post" using 1(3) by simp
      then have "takeWhile link_char rest = m" using run by simp
      then show ?thesis using False \<open>a = CHR ''['' \<and> b = CHR ''['' \<and> rest = m @ post\<close> 1(4) by simp
    next
      case (Cons x pre')
      then have "b # rest = pre' @ ''[['' @ m @ post" using 1(3) by simp
      then have "m \<in> set (findall_links (b # rest))"
        using 1(2)[OF False _ 1(4,5,6)] by simp
      then show ?thesis using False by auto
    qed
  qed
next
  case (2 a)
  then show ?case by (cases pre) auto
next
  case 3
  then show ?case by simp
qed

lemma findall_links_iff: "m \<in> set (findall_links data) \<longleftrightarrow> link_at data m"
  using findall_links_sound findall_links_complete_aux unfolding link_at_def by blast

lemma link_start_Cons:
  "link_start (a # b # rest) \<longleftrightarrow> a = CHR ''['' \<and> b = CHR ''['' \<and> takeWhile link_char rest \<noteq> []"
  by (cases rest) (auto simp: link_start_def)

lemma no_start_in_run:
  "list_all link_char m \<Longrightarrow> filter link_start (tails (m @ r)) = filter link_start (tails r)"
proof (induction m)
  case Nil
  then show ?case by simp
next
  case (Cons c m)
  have "c \<noteq> CHR ''[''" using Cons.prems bracket_not_link by auto
  then have "\<not> link_start ((c # m) @ r)"
    by (auto simp: link_start_def split: list.splits)
  then show ?case using Cons by simp
qed

lemma findall_links_tails:
  "findall_links data = map link_run (filter link_start (tails data))"
proof (induction data rule: findall_links.induct)
  case (1 a b rest)
  show ?case
  proof (cases "a = CHR ''['' \<and> b = CHR ''['' \<and> takeWhile link_char rest \<noteq> []")
    case True
    let ?m = "takeWhile link_char rest"
    let ?r = "dropWhile link_char rest"
    have st: "link_start (a # b # rest)" using True by (simp add: link_start_Cons)
    have rest: "rest = ?m @ ?r" by simp
    have "rest \<noteq> [] \<and> link_char (hd rest)"
      using True by (cases rest) (auto split: if_splits)
    then have nb: "\<not> link_start (b # rest)"
      using True bracket_not_link by (cases rest) (auto simp: link_start_def split: list.splits)
    have "filter link_start (tails rest) = filter link_start (tails ?r)"
      using no_start_in_run[of ?m ?r] rest
      by (metis (mono_tags, lifting) list_all_iff set_takeWhileD)
    then have "filter link_start (tails (a # b # rest)) = (a # b # rest) # filter link_start (tails ?r)"
      using st nb by simp
    then show ?thesis
      using True 1(1) by (simp add: link_run_def)
  next
    case False
    then have "\<not> link_start (a # b # rest)" by (simp add: link_start_Cons)
    then show ?thesis using False 1(2) by auto
  qed
next
  case (2 a)
  then show ?case by (simp add: link_start_def)
next
  case 3
  then show ?case by simp
qed

lemma links_of_tails:
  "links_of data =
     map (\<lambda>s. replace_char CHR '':'' CHR ''/'' (link_run s))
       (filter (\<lambda>s. link_start s \<and> \<not> startswith (link_run s) ''http'') (tails data))"
  by (simp add: links_of_def findall_links_tails filter_map comp_def)

lemma link_char_iff:
  "link_char c \<longleftrightarrow>
     c \<in> set ''abcdefghijklmnopqrstuvwxyzABCDEFGHIJKLMNOPQRSTUVWXYZ0123456789_:/-'' \<or>
     c \<in> set latin1_alnum"
  by (auto simp: link_char_def word_char_def is_digit_def)

lemma links_of_iff:
  "p \<in> set (links_of data) \<longleftrightarrow>
     (\<exists>m. link_at data m \<and> \<not> startswith m ''http'' \<and> p = replace_char CHR '':'' CHR ''/'' m)"
  by (auto simp: links_of_def findall_links_iff)

text \<open>
  C7, as the code has it. \<open>MD.get_paths\<close> returns, in the order of their places in the
  text, the runs of word characters (letters, digits, the underscore), \<open>-\<close>, \<open>/\<close> and
  \<open>:\<close> that follow \<open>[[\<close>, each as long as it can be, but those that begin with \<open>http\<close>,
  with every \<open>:\<close> replaced by \<open>/\<close>. The two examples of the specification come out as
  it says.
\<close>

theorem MD_get_paths_links:
  assumes "read_text w file t = Inr data"
  shows "MD_get_paths w file t =
           Inr (map (\<lambda>s. replace_char CHR '':'' CHR ''/'' (link_run s))
                  (filter (\<lambda>s. link_start s \<and> \<not> startswith (link_run s) ''http'')
                     (tails data)))
     \<and> MD_get_paths w file t = Inr (links_of data)
     \<and> (\<forall>p. p \<in> set (links_of data) \<longleftrightarrow>
            (\<exists>m. link_at data m \<and> \<not> startswith m ''http'' \<and>
                 p = replace_char CHR '':'' CHR ''/'' m))
     \<and> links_of ''[[commands:builtin:echo]]'' = [''commands/builtin/echo'']
     \<and> links_of ''[[http://example.com]]'' = []"
proof -
  have a: "MD_get_paths w file t = Inr (links_of data)"
    using assms by (simp add: MD_get_paths_def)
  have b: "MD_get_paths w file t =
           Inr (map (\<lambda>s. replace_char CHR '':'' CHR ''/'' (link_run s))
                  (filter (\<lambda>s. link_start s \<and> \<not> startswith (link_run s) ''http'')
                     (tails data)))"
    using a by (simp only: links_of_tails)
  have c: "\<forall>p. p \<in> set (links_of data) \<longleftrightarrow>
            (\<exists>m. link_at data m \<and> \<not> startswith m ''http'' \<and>
                 p = replace_char CHR '':'' CHR ''/'' m)"
    by (intro allI) (rule links_of_iff)
  have d: "links_of ''[[commands:builtin:echo]]'' = [''commands/builtin/echo'']"
    by code_simp
  have e: "links_of ''[[http://example.com]]'' = []"
    by code_simp
  show ?thesis
    by (intro conjI) (rule a b c d e)+
qed

theorem MD_get_paths_links_witness:
  "MD_get_paths (reference_world [] [] []) [''start.md''] [([''start.md''], File links_page)]
     = Inr [''commands/builtin/echo'', ''dict/terms/exit_code'']
   \<and> MD_get_paths (reference_world [] [] []) [''start.md'']
       [([''start.md''], File (''[[caf'' @ [CHR 0xE9] @ ''s:x]] [[a'' @ [CHR 0xD7] @ ''b]]''))]
     = Inr [''caf'' @ [CHR 0xE9] @ ''s/x'', ''a'']"
proof -
  let ?w = "reference_world [] [] [] :: tree world"
  let ?accents = "''[[caf'' @ [CHR 0xE9] @ ''s:x]] [[a'' @ [CHR 0xD7] @ ''b]]''"
  have h: "read_text ?w [''start.md''] [([''start.md''], File links_page)] = Inr links_page"
    by code_simp
  have h': "read_text ?w [''start.md''] [([''start.md''], File ?accents)] = Inr ?accents"
    by code_simp
  have l: "links_of links_page = [''commands/builtin/echo'', ''dict/terms/exit_code'']"
    by code_simp
  have l': "links_of ?accents = [''caf'' @ [CHR 0xE9] @ ''s/x'', ''a'']"
    by code_simp
  have "MD_get_paths ?w [''start.md''] [([''start.md''], File links_page)] = Inr (links_of links_page)"
    using MD_get_paths_links[OF h] by (rule conjunct2[THEN conjunct1])
  moreover
  have "MD_get_paths ?w [''start.md''] [([''start.md''], File ?accents)] = Inr (links_of ?accents)"
    using MD_get_paths_links[OF h'] by (rule conjunct2[THEN conjunct1])
  ultimately show ?thesis
    by (simp only: l l')
qed

text \<open>
  The pattern's class has the underscore, which is none of the characters the
  specification lists: a link with an underscore is matched whole.
\<close>

theorem underscore_in_link_counterexample:
  "findall_links ''[[dict:terms:exit_code]]'' = [''dict:terms:exit_code'']
   \<and> \<not> list_all spec_link_char ''dict:terms:exit_code''
   \<and> links_of ''[[dict:terms:exit_code]]'' = [''dict/terms/exit_code'']"
  by code_simp

section \<open>The text-extraction rule (C6)\<close>

lemma MD_get_data_cases:
  assumes "fromstring w response = Inr doc"
  shows "MD_get_data w response =
           (case cssselect_tag ''textarea'' doc of
              [] \<Rightarrow> Inr (tostring w doc)
            | first # others \<Rightarrow>
                (case etext first of
                   None \<Rightarrow> Inr (tostring w doc)
                 | Some s \<Rightarrow>
                     if s = [] then Inr (tostring w doc)
                     else if others = [] then Inr s
                     else Inl AssertionError))"
  using assms
  by (auto simp: MD_get_data_def Let_def truthy_text_def split: list.splits option.splits)

lemma export_path_body:
  assumes "get_url w path us st = (Inr (Some url), st1)" and "url \<noteq> []"
    and "get_response w url st1 = (Inr (Some r), st2)" and "\<not> falsy (Some r)"
  shows "export_path w path us sfx st =
           (case (if sfx = Some ''md''
                  then (case MD_get_data w r of Inl e \<Rightarrow> Inl e | Inr s \<Rightarrow> Inr (Text s))
                  else Inr r) of
              Inl e \<Rightarrow> (Inl e, st2)
            | Inr response \<Rightarrow>
                (case write_file w (target_file path sfx) response st2 of
                   (Inl e, st3) \<Rightarrow> (Inl e, st3)
                 | (Inr u, st3) \<Rightarrow> (Inr (Some (target_file path sfx)), st3)))"
  using assms by (simp add: export_path_def)

text \<open>
  C6, as the code has it. On a page that parses, \<open>MD.get_data\<close> looks at the first
  \<open>textarea\<close> in document order: when it has text, the result is that text if it is the
  only \<open>textarea\<close>, and the assertion fails if there are more; when there is no
  \<open>textarea\<close> or the first one has no text, the result is the serialized document. And
  \<open>export_path\<close>, once it has a non-empty body, writes \<open>MD.get_data\<close> of the body when
  the file suffix is \<open>md\<close> and the body itself otherwise.
\<close>

theorem get_data_rule:
  "(fromstring w response = Inr doc \<longrightarrow>
      MD_get_data w response =
        (case cssselect_tag ''textarea'' doc of
           [] \<Rightarrow> Inr (tostring w doc)
         | first # others \<Rightarrow>
             (case etext first of
                None \<Rightarrow> Inr (tostring w doc)
              | Some s \<Rightarrow>
                  if s = [] then Inr (tostring w doc)
                  else if others = [] then Inr s
                  else Inl AssertionError)))
   \<and> (get_url w path us st = (Inr (Some url), st1) \<and> url \<noteq> [] \<and>
      get_response w url st1 = (Inr (Some r), st2) \<and> \<not> falsy (Some r) \<longrightarrow>
        export_path w path us sfx st =
          (case (if sfx = Some ''md''
                 then (case MD_get_data w r of Inl e \<Rightarrow> Inl e | Inr s \<Rightarrow> Inr (Text s))
                 else Inr r) of
             Inl e \<Rightarrow> (Inl e, st2)
           | Inr response \<Rightarrow>
               (case write_file w (target_file path sfx) response st2 of
                  (Inl e, st3) \<Rightarrow> (Inl e, st3)
                | (Inr u, st3) \<Rightarrow> (Inr (Some (target_file path sfx)), st3))))"
proof (intro conjI impI)
  assume "fromstring w response = Inr doc"
  then show "MD_get_data w response =
        (case cssselect_tag ''textarea'' doc of
           [] \<Rightarrow> Inr (tostring w doc)
         | first # others \<Rightarrow>
             (case etext first of
                None \<Rightarrow> Inr (tostring w doc)
              | Some s \<Rightarrow>
                  if s = [] then Inr (tostring w doc)
                  else if others = [] then Inr s
                  else Inl AssertionError))"
    by (rule MD_get_data_cases)
next
  assume "get_url w path us st = (Inr (Some url), st1) \<and> url \<noteq> [] \<and>
      get_response w url st1 = (Inr (Some r), st2) \<and> \<not> falsy (Some r)"
  then show "export_path w path us sfx st =
          (case (if sfx = Some ''md''
                 then (case MD_get_data w r of Inl e \<Rightarrow> Inl e | Inr s \<Rightarrow> Inr (Text s))
                 else Inr r) of
             Inl e \<Rightarrow> (Inl e, st2)
           | Inr response \<Rightarrow>
               (case write_file w (target_file path sfx) response st2 of
                  (Inl e, st3) \<Rightarrow> (Inl e, st3)
                | (Inr u, st3) \<Rightarrow> (Inr (Some (target_file path sfx)), st3)))"
    using export_path_body by blast
qed

theorem get_data_rule_witness:
  "MD_get_data edit_world (Text edit_page) = Inr ''raw [[start]]''
   \<and> export_path edit_world ''start'' (Some ''?do=edit'') (Some ''md'') \<lparr>fs = [], logs = []\<rparr>
     = (Inr (Some [''start.md'']),
        \<lparr>fs = [([''start.md''], File ''raw [[start]]'')],
          logs = [Snapshot_info ''start'' ''20230302000000'']\<rparr>)"
proof -
  let ?st = "\<lparr>fs = [], logs = []\<rparr> :: tree state"
  let ?st1 = "\<lparr>fs = [], logs = [Snapshot_info ''start'' ''20230302000000'']\<rparr> :: tree state"
  have h1: "fromstring edit_world (Text edit_page) = Inr edit_tree"
    by code_simp
  have h2: "get_url edit_world ''start'' (Some ''?do=edit'') ?st = (Inr (Some replay_edit_id), ?st1)"
    by code_simp
  have h3: "replay_edit_id \<noteq> []"
    by (simp add: replay_edit_id_def)
  have h4: "get_response edit_world replay_edit_id ?st1 = (Inr (Some (Text edit_page)), ?st1)"
    by code_simp
  have h5: "\<not> falsy (Some (Text edit_page))"
    by code_simp
  have r1: "(case cssselect_tag ''textarea'' edit_tree of
           [] \<Rightarrow> Inr (tostring edit_world edit_tree)
         | first # others \<Rightarrow>
             (case etext first of
                None \<Rightarrow> Inr (tostring edit_world edit_tree)
              | Some s \<Rightarrow>
                  if s = [] then Inr (tostring edit_world edit_tree)
                  else if others = [] then Inr s
                  else Inl AssertionError)) = Inr ''raw [[start]]''"
    by code_simp
  have r2: "write_file edit_world (target_file ''start'' (Some ''md'')) (Text ''raw [[start]]'') ?st1
      = (Inr (), \<lparr>fs = [([''start.md''], File ''raw [[start]]'')],
          logs = [Snapshot_info ''start'' ''20230302000000'']\<rparr>)"
    by code_simp
  have r3: "target_file ''start'' (Some ''md'') = [''start.md'']"
    by code_simp
  note rule = get_data_rule[of edit_world "Text edit_page" edit_tree "''start''"
      "Some ''?do=edit''" ?st replay_edit_id ?st1 "Text edit_page" ?st1 "Some ''md''"]
  have a: "MD_get_data edit_world (Text edit_page) = Inr ''raw [[start]]''"
    using rule h1 r1 by simp
  have "export_path edit_world ''start'' (Some ''?do=edit'') (Some ''md'') ?st
      = (Inr (Some [''start.md'']),
        \<lparr>fs = [([''start.md''], File ''raw [[start]]'')],
          logs = [Snapshot_info ''start'' ''20230302000000'']\<rparr>)"
    using rule h2 h3 h4 h5 a r2 r3 by simp
  with a show ?thesis by simp
qed

text \<open>
  A page with two text areas, the first with text: the result is neither that text nor
  the serialized document, the assertion fails.
\<close>

theorem two_textareas_counterexample:
  "fromstring edit_world (Text two_areas_page) = Inr two_areas_tree
   \<and> MD_get_data edit_world (Text two_areas_page) = Inl AssertionError"
  by code_simp

section \<open>References of a structural document (C8)\<close>

lemma traverse_total:
  "(\<forall>x\<in>set xs. \<exists>y. f x = Inr y) \<Longrightarrow> \<exists>ys. traverse f xs = Inr ys"
  by (induction xs) (auto split: sum.splits)

lemma traverse_set:
  "traverse f xs = Inr ys \<Longrightarrow> set ys = {y. \<exists>x\<in>set xs. f x = Inr y}"
  by (induction xs arbitrary: ys) (auto split: sum.splits)

lemma traverse_getitem:
  "traverse (\<lambda>e. getitem (attrib e) a) (concat (map (\<lambda>t. cssselect_attr t a data) tags))
     = Inr (map (\<lambda>e. the (map_of (attrib e) a)) (concat (map (\<lambda>t. cssselect_attr t a data) tags)))"
proof -
  have "\<forall>e\<in>set es. map_of (attrib e) a \<noteq> None \<Longrightarrow>
          traverse (\<lambda>e. getitem (attrib e) a) es = Inr (map (\<lambda>e. the (map_of (attrib e) a)) es)" for es
    by (induction es) (auto simp: getitem_def)
  then show ?thesis by (auto simp: cssselect_attr_def)
qed

lemma attr_values_set:
  "\<exists>vs. attr_values a tags data = Inr vs \<and>
        set vs = {v. \<exists>e\<in>set (descendants_or_self data).
                       tag e \<in> set tags \<and> map_of (attrib e) a = Some v \<and> startswith v ''/''}"
proof -
  have "set (filter (\<lambda>v. startswith v ''/'')
          (map (\<lambda>e. the (map_of (attrib e) a)) (concat (map (\<lambda>t. cssselect_attr t a data) tags))))
      = {v. \<exists>e\<in>set (descendants_or_self data).
                       tag e \<in> set tags \<and> map_of (attrib e) a = Some v \<and> startswith v ''/''}"
    by (auto simp: cssselect_attr_def) force
  then show ?thesis
    by (simp add: attr_values_def traverse_getitem)
qed

lemma link_values_split:
  "link_values data =
     {v. \<exists>e\<in>set (descendants_or_self data).
           tag e \<in> set [''a'', ''link''] \<and> map_of (attrib e) ''href'' = Some v \<and> startswith v ''/''}
   \<union> {v. \<exists>e\<in>set (descendants_or_self data).
           tag e \<in> set [''script'', ''img''] \<and> map_of (attrib e) ''src'' = Some v \<and> startswith v ''/''}"
  by (auto simp: link_values_def)

lemma attr_paths_set:
  assumes "attr_values a tags data = Inr vs"
    and "\<forall>v\<in>set vs. \<exists>p. urlparse_path w v = Inr p"
  shows "\<exists>ps. attr_paths w a tags data = Inr ps \<and>
           set ps = {lstrip CHR ''/'' p | v p. v \<in> set vs \<and> urlparse_path w v = Inr p}"
proof -
  let ?f = "\<lambda>v. case urlparse_path w v of Inl e \<Rightarrow> Inl e | Inr p \<Rightarrow> Inr (lstrip CHR ''/'' p)"
  have "\<forall>v\<in>set vs. \<exists>y. ?f v = Inr y"
    using assms(2) by (auto split: sum.splits)
  then obtain ps where ps: "traverse ?f vs = Inr ps"
    using traverse_total[of vs ?f] by blast
  have "set ps = {y. \<exists>v\<in>set vs. ?f v = Inr y}"
    using traverse_set[OF ps] .
  also have "\<dots> = {lstrip CHR ''/'' p | v p. v \<in> set vs \<and> urlparse_path w v = Inr p}"
  proof -
    have "?f v = Inr y \<longleftrightarrow> (\<exists>p. urlparse_path w v = Inr p \<and> y = lstrip CHR ''/'' p)" for v y
      by (cases "urlparse_path w v") auto
    then show ?thesis by blast
  qed
  finally show ?thesis
    using ps assms(1) by (simp add: attr_paths_def)
qed

lemma link_values_slash: "v \<in> link_values data \<Longrightarrow> startswith v ''/''"
  by (auto simp: link_values_def)

lemma HTML_get_paths_parse_error:
  "read_text w file t = Inr s \<Longrightarrow> fromstring w (Text s) = Inl e \<Longrightarrow>
     HTML_get_paths w file t = Inl e"
  by (simp add: HTML_get_paths_def)

text \<open>
  C8, as the code has it. For a document that parses, and when \<open>urlparse\<close> accepts every
  value it is given, \<open>HTML.get_paths\<close> returns a set (a list without repetition) whose
  members are the \<open>href\<close> values of the \<open>a\<close> and \<open>link\<close> elements and the \<open>src\<close> values of
  the \<open>script\<close> and \<open>img\<close> elements that start with a slash, be it one slash or more,
  each as the path \<open>urlparse\<close> finds in it, without its leading slashes.
\<close>

theorem HTML_get_paths_set:
  assumes "read_text w file t = Inr s" and "fromstring w (Text s) = Inr data"
    and "\<forall>v\<in>link_values data. \<exists>p. urlparse_path w v = Inr p"
  shows "\<exists>ps. HTML_get_paths w file t = Inr ps \<and> distinct ps \<and>
           set ps = {lstrip CHR ''/'' p | v p. v \<in> link_values data \<and> urlparse_path w v = Inr p}"
proof -
  obtain hs where hs: "attr_values ''href'' [''a'', ''link''] data = Inr hs"
    "set hs = {v. \<exists>e\<in>set (descendants_or_self data).
           tag e \<in> set [''a'', ''link''] \<and> map_of (attrib e) ''href'' = Some v \<and> startswith v ''/''}"
    using attr_values_set by blast
  obtain ss where ss: "attr_values ''src'' [''script'', ''img''] data = Inr ss"
    "set ss = {v. \<exists>e\<in>set (descendants_or_self data).
           tag e \<in> set [''script'', ''img''] \<and> map_of (attrib e) ''src'' = Some v \<and> startswith v ''/''}"
    using attr_values_set by blast
  have un: "link_values data = set hs \<union> set ss"
    using hs(2) ss(2) link_values_split by simp
  obtain href where href: "attr_paths w ''href'' [''a'', ''link''] data = Inr href"
    "set href = {lstrip CHR ''/'' p | v p. v \<in> set hs \<and> urlparse_path w v = Inr p}"
    using attr_paths_set[OF hs(1)] assms(3) un by blast
  obtain src where src: "attr_paths w ''src'' [''script'', ''img''] data = Inr src"
    "set src = {lstrip CHR ''/'' p | v p. v \<in> set ss \<and> urlparse_path w v = Inr p}"
    using attr_paths_set[OF ss(1)] assms(3) un by blast
  have "HTML_get_paths w file t = Inr (rev (remdups (rev (href @ src))))"
    using assms(1,2) href(1) src(1) by (simp add: HTML_get_paths_def)
  moreover have "set (rev (remdups (rev (href @ src))))
      = {lstrip CHR ''/'' p | v p. v \<in> link_values data \<and> urlparse_path w v = Inr p}"
    using href(2) src(2) un by auto
  ultimately show ?thesis by simp
qed

theorem HTML_get_paths_set_witness:
  "HTML_get_paths html_world [''start''] html_disk
     = Inr [''commands/builtin/echo'', ''lib/exe/css.php'', ''pagead/js/adsbygoogle.js'',
            ''lib/images/logo.png'']
   \<and> {lstrip CHR ''/'' p | v p. v \<in> link_values html_tree \<and> urlparse_path html_world v = Inr p}
     = {''commands/builtin/echo'', ''lib/exe/css.php'', ''pagead/js/adsbygoogle.js'',
        ''lib/images/logo.png''}"
proof -
  have h1: "read_text html_world [''start''] html_disk = Inr html_page"
    by code_simp
  have h2: "fromstring html_world (Text html_page) = Inr html_tree"
    by code_simp
  have h3: "\<forall>v\<in>link_values html_tree. \<exists>p. urlparse_path html_world v = Inr p"
    by (simp add: html_world_def reference_world_def)
  have e: "HTML_get_paths html_world [''start''] html_disk
     = Inr [''commands/builtin/echo'', ''lib/exe/css.php'', ''pagead/js/adsbygoogle.js'',
            ''lib/images/logo.png'']"
    by code_simp
  obtain ps where "HTML_get_paths html_world [''start''] html_disk = Inr ps"
    and "set ps = {lstrip CHR ''/'' p | v p.
                     v \<in> link_values html_tree \<and> urlparse_path html_world v = Inr p}"
    using HTML_get_paths_set[OF h1 h2 h3] by blast
  with e show ?thesis by auto
qed

text \<open>
  A script on another host, referred to without its scheme: the value begins with a
  slash, is kept, and comes out as a path of this site, though it is not root-relative.
\<close>

theorem scheme_relative_counterexample:
  "fromstring ads_world (Text ads_page) = Inr ads_tree
   \<and> HTML_get_paths ads_world [''start''] ads_disk = Inr [''pagead/js/adsbygoogle.js'']
   \<and> \<not> root_relative ''//pagead2.googlesyndication.com/pagead/js/adsbygoogle.js''"
  by code_simp

section \<open>The frontier of a pass (C9, C2)\<close>

lemma dict_set_keys: "fst ` set (dict_set d k v) = insert k (fst ` set d)"
  by (induction d k v rule: dict_set.induct) auto

lemma foldl_dict_keys:
  "fst ` set (foldl (\<lambda>d p. if keep p then dict_set d p file else d) d ps)
     = fst ` set d \<union> {p \<in> set ps. keep p}"
  by (induction ps arbitrary: d) (auto simp: dict_set_keys)

lemma unexported_dict_keys:
  "unexported_dict get keep files d0 = Inr d \<Longrightarrow>
     fst ` set d = fst ` set d0 \<union>
       {p. \<exists>f\<in>set files. \<exists>ps. get f = Inr ps \<and> p \<in> set ps \<and> keep p}"
proof (induction files arbitrary: d0)
  case Nil
  then show ?case by simp
next
  case (Cons f files)
  then obtain ps where ps: "get f = Inr ps"
    by (cases "get f") auto
  let ?d1 = "foldl (\<lambda>d p. if keep p then dict_set d p f else d) d0 ps"
  have "unexported_dict get keep files ?d1 = Inr d"
    using Cons.prems ps by simp
  then have "fst ` set d = fst ` set ?d1 \<union>
       {p. \<exists>f\<in>set files. \<exists>ps. get f = Inr ps \<and> p \<in> set ps \<and> keep p}"
    by (rule Cons.IH)
  then show ?case
    using ps by (auto simp: foldl_dict_keys)
qed

lemma unexported_dict_total:
  "\<forall>f\<in>set files. \<exists>ps. get f = Inr ps \<Longrightarrow> \<exists>d. unexported_dict get keep files d0 = Inr d"
  by (induction files arbitrary: d0) auto

lemma unexported_dict_nothing:
  assumes "\<forall>f\<in>set files. \<exists>ps. get f = Inr ps \<and> (\<forall>p\<in>set ps. \<not> keep p)"
  shows "unexported_dict get keep files [] = Inr []"
proof -
  obtain d where d: "unexported_dict get keep files [] = Inr d"
    using unexported_dict_total[of files get keep "[]"] assms by blast
  have "fst ` set d = {}"
    using unexported_dict_keys[OF d] assms by auto
  then show ?thesis using d by simp
qed


lemma MD_frontier:
  "MD_unexported w t = Inr d \<Longrightarrow>
     fst ` set d =
       {p. \<exists>f\<in>set (rglob w ''*.md'' t). \<exists>ps. MD_get_paths w f t = Inr ps \<and> p \<in> set ps \<and>
             \<not> exists w (Path (p @ ''.md'')) t}"
  unfolding MD_unexported_def by (drule unexported_dict_keys) simp

lemma HTML_frontier:
  "HTML_unexported w t = Inr d \<Longrightarrow>
     fst ` set d =
       {p. \<exists>f\<in>set (HTML_file_paths w t). \<exists>ps. HTML_get_paths w f t = Inr ps \<and> p \<in> set ps \<and>
             \<not> exists w (Path p) t \<and> \<not> startswith p ''_export''}"
  unfolding HTML_unexported_def by (drule unexported_dict_keys) simp

lemma MD_export_nothing:
  "MD_unexported w (fs st) = Inr [] \<Longrightarrow> MD_export w st = (Inr (), logging No_items_warning st)"
  by (simp add: MD_export_def)

lemma HTML_export_nothing:
  "HTML_unexported w (fs st) = Inr [] \<Longrightarrow>
     HTML_export w st = (Inr (), logging (Will_export_info []) st)"
  by (simp add: HTML_export_def)

lemma MD_all_there:
  assumes "\<forall>f\<in>set (rglob w ''*.md'' t). \<exists>ps. MD_get_paths w f t = Inr ps \<and>
             (\<forall>p\<in>set ps. exists w (Path (p @ ''.md'')) t)"
  shows "MD_unexported w t = Inr []"
  unfolding MD_unexported_def using assms by (intro unexported_dict_nothing) simp

lemma HTML_all_there:
  assumes "\<forall>f\<in>set (HTML_file_paths w t). \<exists>ps. HTML_get_paths w f t = Inr ps \<and>
             (\<forall>p\<in>set ps. exists w (Path p) t \<or> startswith p ''_export'')"
  shows "HTML_unexported w t = Inr []"
  unfolding HTML_unexported_def using assms by (intro unexported_dict_nothing) simp

lemma HTML_passes_on_empty_frontier:
  "HTML_unexported w (fs st) = Inr [] \<Longrightarrow>
     repeat_pass n (HTML_export w) st
       = (Inr (), st\<lparr>logs := logs st @ replicate n (Will_export_info [])\<rparr>)"
proof (induction n arbitrary: st)
  case 0
  then show ?case by simp
next
  case (Suc n)
  have "HTML_export w st = (Inr (), logging (Will_export_info []) st)"
    using Suc.prems by (rule HTML_export_nothing)
  moreover have "HTML_unexported w (fs (logging (Will_export_info []) st)) = Inr []"
    using Suc.prems by (simp add: logging_def)
  ultimately show ?case
    using Suc.IH[of "logging (Will_export_info []) st"]
    by (simp add: logging_def replicate_append_same)
qed

lemma MD_passes_on_empty_frontier:
  "MD_unexported w (fs st) = Inr [] \<Longrightarrow>
     repeat_pass n (MD_export w) st
       = (Inr (), st\<lparr>logs := logs st @ replicate n No_items_warning\<rparr>)"
proof (induction n arbitrary: st)
  case 0
  then show ?case by simp
next
  case (Suc n)
  have "MD_export w st = (Inr (), logging No_items_warning st)"
    using Suc.prems by (rule MD_export_nothing)
  moreover have "MD_unexported w (fs (logging No_items_warning st)) = Inr []"
    using Suc.prems by (simp add: logging_def)
  ultimately show ?case
    using Suc.IH[of "logging No_items_warning st"]
    by (simp add: logging_def replicate_append_same)
qed

text \<open>
  C9, as the code has it. A path is a key of the dictionary of paths to export only if
  the path the check reads (for the content kind, the path with \<open>.md\<close> appended) does
  not exist, whatever the disk. A pass whose dictionary is empty leaves the disk as it
  is, so that any number of passes in succession, begun on a disk with nothing to
  export, return and leave the disk as it was.
\<close>

theorem frontier_skips_existing:
  "(MD_unexported w t = Inr d \<longrightarrow> (\<forall>p\<in>fst ` set d. \<not> exists w (Path (p @ ''.md'')) t))
   \<and> (HTML_unexported w t = Inr d' \<longrightarrow> (\<forall>p\<in>fst ` set d'. \<not> exists w (Path p) t))
   \<and> (MD_unexported w (fs st) = Inr [] \<longrightarrow>
        fst (repeat_pass n (MD_export w) st) = Inr () \<and>
        fs (snd (repeat_pass n (MD_export w) st)) = fs st)
   \<and> (HTML_unexported w (fs st) = Inr [] \<longrightarrow>
        fst (repeat_pass n (HTML_export w) st) = Inr () \<and>
        fs (snd (repeat_pass n (HTML_export w) st)) = fs st)"
proof (intro conjI impI)
  assume "MD_unexported w t = Inr d"
  then show "\<forall>p\<in>fst ` set d. \<not> exists w (Path (p @ ''.md'')) t"
    using MD_frontier[of w t d] by blast
next
  assume "HTML_unexported w t = Inr d'"
  then show "\<forall>p\<in>fst ` set d'. \<not> exists w (Path p) t"
    using HTML_frontier[of w t d'] by blast
next
  assume a: "MD_unexported w (fs st) = Inr []"
  show "fst (repeat_pass n (MD_export w) st) = Inr ()"
    by (simp add: MD_passes_on_empty_frontier[OF a])
  show "fs (snd (repeat_pass n (MD_export w) st)) = fs st"
    by (simp add: MD_passes_on_empty_frontier[OF a])
next
  assume a: "HTML_unexported w (fs st) = Inr []"
  show "fst (repeat_pass n (HTML_export w) st) = Inr ()"
    by (simp add: HTML_passes_on_empty_frontier[OF a])
  show "fs (snd (repeat_pass n (HTML_export w) st)) = fs st"
    by (simp add: HTML_passes_on_empty_frontier[OF a])
qed

theorem frontier_skips_existing_witness:
  "\<not> exists pages_world (Path ''commands/builtin/true.md'') open_disk
   \<and> \<not> exists pages_world (Path ''lib/images/logo.png'') open_disk
   \<and> fs (snd (repeat_pass 3 (MD_export pages_world) \<lparr>fs = closed_disk, logs = []\<rparr>))
     = closed_disk
   \<and> fs (snd (repeat_pass 3 (HTML_export pages_world) \<lparr>fs = closed_disk, logs = []\<rparr>))
     = closed_disk"
proof -
  let ?st = "\<lparr>fs = closed_disk, logs = []\<rparr> :: tree state"
  have h1: "MD_unexported pages_world open_disk = Inr [(''commands/builtin/true'', [''start.md''])]"
    by code_simp
  have h2: "HTML_unexported pages_world open_disk
      = Inr [(''commands/builtin/echo'', [''start'']), (''lib/exe/css.php'', [''start'']),
             (''pagead/js/adsbygoogle.js'', [''start'']), (''lib/images/logo.png'', [''start''])]"
    by code_simp
  have h3: "MD_unexported pages_world (fs ?st) = Inr []"
    by code_simp
  have h4: "HTML_unexported pages_world (fs ?st) = Inr []"
    by code_simp
  show ?thesis
    using frontier_skips_existing[of pages_world open_disk
        "[(''commands/builtin/true'', [''start.md''])]"
        "[(''commands/builtin/echo'', [''start'']), (''lib/exe/css.php'', [''start'']),
          (''pagead/js/adsbygoogle.js'', [''start'']), (''lib/images/logo.png'', [''start''])]"
        ?st 3]
      h1 h2 h3 h4
    by simp
qed

text \<open>
  Two passes in succession on a chain of pages: the first writes \<open>a.md\<close>, the second,
  on the disk the first left, writes \<open>b.md\<close>. And a reference \<open>[[a:]]\<close>: the file
  \<open>export_path\<close> writes for the path \<open>a/\<close> is \<open>a.md\<close>, the check reads \<open>a/.md\<close>, and the
  path stays in the dictionary though its file is on the disk.
\<close>

theorem second_pass_counterexample:
  "fs (snd (MD_export chain_world \<lparr>fs = chain_disk, logs = []\<rparr>))
     = [([''start.md''], File ''[[a]]''), ([''a.md''], File ''[[b]]'')]
   \<and> fs (snd (MD_export chain_world
                (snd (MD_export chain_world \<lparr>fs = chain_disk, logs = []\<rparr>))))
     = [([''start.md''], File ''[[a]]''), ([''a.md''], File ''[[b]]''),
        ([''b.md''], File ''the end'')]
   \<and> target_file ''a/'' (Some ''md'') = [''a.md'']
   \<and> exists (reference_world [] [] []) [''a.md''] namespace_disk
   \<and> Path (''a/'' @ ''.md'') = [''a'', ''.md'']
   \<and> MD_unexported (reference_world [] [] []) namespace_disk = Inr [(''a/'', [''start.md''])]"
  by code_simp

lemma MD_export_frontier:
  "MD_unexported w (fs st) = Inr e \<Longrightarrow> e \<noteq> [] \<Longrightarrow>
     MD_export w st = export_each w (map fst e) (Some ''?do=edit'') (Some ''md'') st"
  by (simp add: MD_export_def)

lemma HTML_export_frontier:
  "HTML_unexported w (fs st) = Inr e \<Longrightarrow>
     HTML_export w st =
       export_each w (map fst e) None None (logging (Will_export_info (map fst e)) st)"
  by (simp add: HTML_export_def)

text \<open>
  C2, as the code has it. The keys of the dictionary of paths to export are the paths
  the scanned documents refer to that do not exist on the disk (and, for the structural
  kind, do not begin with \<open>_export\<close>): the lists of dead links are not looked at. When
  every path referred to exists (or, structural kind, begins with \<open>_export\<close>), the
  pass calls \<open>export_path\<close> for no path, writes one record in the log and leaves the
  disk as it is. Otherwise the pass is the loop over the keys, which calls
  \<open>export_path\<close> for each key in turn until a call raises.
\<close>

theorem frontier_is_missing_paths:
  "(MD_unexported w t = Inr d \<longrightarrow>
      fst ` set d =
        {p. \<exists>f\<in>set (rglob w ''*.md'' t). \<exists>ps. MD_get_paths w f t = Inr ps \<and> p \<in> set ps \<and>
              \<not> exists w (Path (p @ ''.md'')) t})
   \<and> (HTML_unexported w t = Inr d' \<longrightarrow>
      fst ` set d' =
        {p. \<exists>f\<in>set (HTML_file_paths w t). \<exists>ps. HTML_get_paths w f t = Inr ps \<and> p \<in> set ps \<and>
              \<not> exists w (Path p) t \<and> \<not> startswith p ''_export''})
   \<and> ((\<forall>f\<in>set (rglob w ''*.md'' (fs st)). \<exists>ps. MD_get_paths w f (fs st) = Inr ps \<and>
             (\<forall>p\<in>set ps. exists w (Path (p @ ''.md'')) (fs st))) \<longrightarrow>
        MD_export w st = (Inr (), logging No_items_warning st))
   \<and> ((\<forall>f\<in>set (HTML_file_paths w (fs st)). \<exists>ps. HTML_get_paths w f (fs st) = Inr ps \<and>
             (\<forall>p\<in>set ps. exists w (Path p) (fs st) \<or> startswith p ''_export'')) \<longrightarrow>
        HTML_export w st = (Inr (), logging (Will_export_info []) st))
   \<and> (MD_unexported w (fs st') = Inr e \<and> e \<noteq> [] \<longrightarrow>
        MD_export w st' = export_each w (map fst e) (Some ''?do=edit'') (Some ''md'') st')
   \<and> (HTML_unexported w (fs st') = Inr e' \<longrightarrow>
        HTML_export w st' =
          export_each w (map fst e') None None (logging (Will_export_info (map fst e')) st'))
   \<and> export_each w [] us sfx s = (Inr (), s)
   \<and> export_each w (p # ps) us sfx s =
       (case export_path w p us sfx s of
          (Inl x, s1) \<Rightarrow> (Inl x, s1)
        | (Inr r, s1) \<Rightarrow> export_each w ps us sfx s1)"
proof (intro conjI impI)
  assume "MD_unexported w t = Inr d"
  then show "fst ` set d =
        {p. \<exists>f\<in>set (rglob w ''*.md'' t). \<exists>ps. MD_get_paths w f t = Inr ps \<and> p \<in> set ps \<and>
              \<not> exists w (Path (p @ ''.md'')) t}"
    by (rule MD_frontier)
next
  assume "HTML_unexported w t = Inr d'"
  then show "fst ` set d' =
        {p. \<exists>f\<in>set (HTML_file_paths w t). \<exists>ps. HTML_get_paths w f t = Inr ps \<and> p \<in> set ps \<and>
              \<not> exists w (Path p) t \<and> \<not> startswith p ''_export''}"
    by (rule HTML_frontier)
next
  assume "\<forall>f\<in>set (rglob w ''*.md'' (fs st)). \<exists>ps. MD_get_paths w f (fs st) = Inr ps \<and>
             (\<forall>p\<in>set ps. exists w (Path (p @ ''.md'')) (fs st))"
  then have "MD_unexported w (fs st) = Inr []"
    by (rule MD_all_there)
  then show "MD_export w st = (Inr (), logging No_items_warning st)"
    by (rule MD_export_nothing)
next
  assume "\<forall>f\<in>set (HTML_file_paths w (fs st)). \<exists>ps. HTML_get_paths w f (fs st) = Inr ps \<and>
             (\<forall>p\<in>set ps. exists w (Path p) (fs st) \<or> startswith p ''_export'')"
  then have "HTML_unexported w (fs st) = Inr []"
    by (rule HTML_all_there)
  then show "HTML_export w st = (Inr (), logging (Will_export_info []) st)"
    by (rule HTML_export_nothing)
next
  assume "MD_unexported w (fs st') = Inr e \<and> e \<noteq> []"
  then show "MD_export w st' = export_each w (map fst e) (Some ''?do=edit'') (Some ''md'') st'"
    using MD_export_frontier[of w st' e] by simp
next
  assume "HTML_unexported w (fs st') = Inr e'"
  then show "HTML_export w st' =
          export_each w (map fst e') None None (logging (Will_export_info (map fst e')) st')"
    by (rule HTML_export_frontier)
next
  show "export_each w [] us sfx s = (Inr (), s)"
    by simp
next
  show "export_each w (p # ps) us sfx s =
       (case export_path w p us sfx s of
          (Inl x, s1) \<Rightarrow> (Inl x, s1)
        | (Inr r, s1) \<Rightarrow> export_each w ps us sfx s1)"
    by simp
qed

theorem frontier_is_missing_paths_witness:
  "{p. \<exists>f\<in>set (rglob dead_world ''*.md'' open_disk).
         \<exists>ps. MD_get_paths dead_world f open_disk = Inr ps \<and> p \<in> set ps \<and>
              \<not> exists dead_world (Path (p @ ''.md'')) open_disk}
     = {''commands/builtin/true''}
   \<and> {p. \<exists>f\<in>set (HTML_file_paths dead_world open_disk).
         \<exists>ps. HTML_get_paths dead_world f open_disk = Inr ps \<and> p \<in> set ps \<and>
              \<not> exists dead_world (Path p) open_disk \<and> \<not> startswith p ''_export''}
     = {''commands/builtin/echo'', ''lib/exe/css.php'', ''pagead/js/adsbygoogle.js'',
        ''lib/images/logo.png''}
   \<and> MD_export dead_world \<lparr>fs = closed_disk, logs = []\<rparr>
     = (Inr (), \<lparr>fs = closed_disk, logs = [No_items_warning]\<rparr>)
   \<and> HTML_export dead_world \<lparr>fs = closed_disk, logs = []\<rparr>
     = (Inr (), \<lparr>fs = closed_disk, logs = [Will_export_info []]\<rparr>)
   \<and> MD_export dead_world \<lparr>fs = dead_disk, logs = []\<rparr>
     = (Inr (),
        \<lparr>fs = [([''start.md''], File ''[[commands:builtin:true]]''),
               ([''commands''], Dir), ([''commands'', ''builtin''], Dir),
               ([''commands'', ''builtin'', ''true.md''], File ''the true builtin'')],
          logs = [Snapshot_info ''commands/builtin/true'' ''20230302000000'']\<rparr>)
   \<and> HTML_export dead_world \<lparr>fs = dead_disk, logs = []\<rparr>
     = (Inr (), \<lparr>fs = dead_disk, logs = [Will_export_info []]\<rparr>)"
proof -
  let ?st = "\<lparr>fs = closed_disk, logs = []\<rparr> :: tree state"
  let ?st' = "\<lparr>fs = dead_disk, logs = []\<rparr> :: tree state"
  have h1: "MD_unexported dead_world open_disk = Inr [(''commands/builtin/true'', [''start.md''])]"
    by code_simp
  have h2: "HTML_unexported dead_world open_disk
      = Inr [(''commands/builtin/echo'', [''start'']), (''lib/exe/css.php'', [''start'']),
             (''pagead/js/adsbygoogle.js'', [''start'']), (''lib/images/logo.png'', [''start''])]"
    by code_simp
  have g1: "rglob dead_world ''*.md'' closed_disk = [[''start.md'']]"
    by code_simp
  have g2: "MD_get_paths dead_world [''start.md''] closed_disk = Inr [''start'']"
    by code_simp
  have g3: "exists dead_world (Path ''start.md'') closed_disk"
    by code_simp
  have h3: "\<forall>f\<in>set (rglob dead_world ''*.md'' (fs ?st)).
              \<exists>ps. MD_get_paths dead_world f (fs ?st) = Inr ps \<and>
                (\<forall>p\<in>set ps. exists dead_world (Path (p @ ''.md'')) (fs ?st))"
    using g1 g2 g3 by simp
  have g4: "HTML_file_paths dead_world closed_disk = [[''start'']]"
    by code_simp
  have g5: "HTML_get_paths dead_world [''start''] closed_disk = Inr [''start'']"
    by code_simp
  have g6: "exists dead_world (Path ''start'') closed_disk"
    by code_simp
  have h4: "\<forall>f\<in>set (HTML_file_paths dead_world (fs ?st)).
              \<exists>ps. HTML_get_paths dead_world f (fs ?st) = Inr ps \<and>
                (\<forall>p\<in>set ps. exists dead_world (Path p) (fs ?st) \<or> startswith p ''_export'')"
    using g4 g5 g6 by simp
  have h5: "MD_unexported dead_world (fs ?st') = Inr [(''commands/builtin/true'', [''start.md''])]"
    by code_simp
  have h6: "HTML_unexported dead_world (fs ?st') = Inr []"
    by code_simp
  have r: "export_each dead_world [''commands/builtin/true''] (Some ''?do=edit'') (Some ''md'') ?st'
      = (Inr (),
        \<lparr>fs = [([''start.md''], File ''[[commands:builtin:true]]''),
               ([''commands''], Dir), ([''commands'', ''builtin''], Dir),
               ([''commands'', ''builtin'', ''true.md''], File ''the true builtin'')],
          logs = [Snapshot_info ''commands/builtin/true'' ''20230302000000'']\<rparr>)"
    by code_simp
  note rule = frontier_is_missing_paths[of dead_world open_disk
        "[(''commands/builtin/true'', [''start.md''])]"
        "[(''commands/builtin/echo'', [''start'']), (''lib/exe/css.php'', [''start'']),
          (''pagead/js/adsbygoogle.js'', [''start'']), (''lib/images/logo.png'', [''start''])]"
        ?st ?st' "[(''commands/builtin/true'', [''start.md''])]" "[]"]
  have a: "{p. \<exists>f\<in>set (rglob dead_world ''*.md'' open_disk).
         \<exists>ps. MD_get_paths dead_world f open_disk = Inr ps \<and> p \<in> set ps \<and>
              \<not> exists dead_world (Path (p @ ''.md'')) open_disk}
     = {''commands/builtin/true''}"
    using rule h1 by simp
  have b: "{p. \<exists>f\<in>set (HTML_file_paths dead_world open_disk).
         \<exists>ps. HTML_get_paths dead_world f open_disk = Inr ps \<and> p \<in> set ps \<and>
              \<not> exists dead_world (Path p) open_disk \<and> \<not> startswith p ''_export''}
     = {''commands/builtin/echo'', ''lib/exe/css.php'', ''pagead/js/adsbygoogle.js'',
        ''lib/images/logo.png''}"
    using rule h2 by simp
  have c: "MD_export dead_world ?st = (Inr (), \<lparr>fs = closed_disk, logs = [No_items_warning]\<rparr>)"
    using rule h3 by (simp add: logging_def)
  have d: "HTML_export dead_world ?st = (Inr (), \<lparr>fs = closed_disk, logs = [Will_export_info []]\<rparr>)"
    using rule h4 by (simp add: logging_def)
  have e: "MD_export dead_world ?st'
      = export_each dead_world [''commands/builtin/true''] (Some ''?do=edit'') (Some ''md'') ?st'"
    using rule h5 by simp
  have f: "HTML_export dead_world ?st' = (Inr (), \<lparr>fs = dead_disk, logs = [Will_export_info []]\<rparr>)"
    using rule h6 by (simp add: logging_def)
  show ?thesis
    using a b c d f by (simp only: e r)
qed

text \<open>
  A content document and a structural document that refer to a path of their kind's
  list of dead links: the path is a key of the dictionary of paths to export.
\<close>

theorem dead_link_in_frontier_counterexample:
  "MD_unexported pages_world open_disk = Inr [(''commands/builtin/true'', [''start.md''])]
   \<and> ''commands/builtin/true'' \<in> set MD_DEAD_LINKS
   \<and> HTML_unexported pages_world open_disk
     = Inr [(''commands/builtin/echo'', [''start'']), (''lib/exe/css.php'', [''start'']),
            (''pagead/js/adsbygoogle.js'', [''start'']), (''lib/images/logo.png'', [''start''])]
   \<and> ''pagead/js/adsbygoogle.js'' \<in> set HTML_DEAD_LINKS"
  by code_simp

section \<open>The number of passes (C5)\<close>

lemma announced_logging [simp]:
  "announced (logs (logging e st)) =
     announced (logs st) + (case e of Will_export_info ps \<Rightarrow> 1 | _ \<Rightarrow> 0)"
  by (cases e) (simp_all add: announced_def logging_def)

lemma announced_fs_update [simp]: "logs (st\<lparr>fs := t\<rparr>) = logs st"
  by simp

lemma get_url_announced:
  "announced (logs (snd (get_url w p u st))) = announced (logs st)"
  by (simp add: get_url_def Let_def
      split: sum.splits bool.splits json.splits option.splits)

lemma get_response_announced:
  "announced (logs (snd (get_response w url st))) = announced (logs st)"
  by (simp add: get_response_def split: sum.splits option.splits)

lemma rename_if_collision_announced:
  "announced (logs (snd (rename_if_collision w f st))) = announced (logs st)"
  by (simp add: rename_if_collision_def Let_def split: sum.splits)

lemma write_file_announced:
  "announced (logs (snd (write_file w f r st))) = announced (logs st)"
  using rename_if_collision_announced[of w f st]
  by (cases "rename_if_collision w f st")
    (auto simp: write_file_def split: sum.splits payload.splits)

lemma export_path_announced:
  "announced (logs (snd (export_path w p u sfx st))) = announced (logs st)"
proof -
  obtain r1 s1 where g: "get_url w p u st = (r1, s1)" by (cases "get_url w p u st")
  have a1: "announced (logs s1) = announced (logs st)"
    using get_url_announced[of w p u st] g by simp
  show ?thesis
  proof (cases r1)
    case (Inl e)
    then show ?thesis using g a1 by (simp add: export_path_def)
  next
    case (Inr url)
    show ?thesis
    proof (cases "url = None \<or> url = Some []")
      case True
      then show ?thesis using g Inr a1 by (auto simp: export_path_def)
    next
      case False
      then obtain x where x: "url = Some x" "x \<noteq> []" by auto
      obtain r2 s2 where h: "get_response w x s1 = (r2, s2)" by (cases "get_response w x s1")
      have a2: "announced (logs s2) = announced (logs st)"
        using get_response_announced[of w x s1] h a1 by simp
      have a3: "announced (logs s3) = announced (logs st)"
        if "write_file w f r s2 = (y, s3)" for f r y s3
        using write_file_announced[of w f r s2] a2 that by simp
      show ?thesis
        using g Inr x h a2
        by (auto simp: export_path_def split: sum.splits option.splits prod.splits dest: a3)
    qed
  qed
qed

lemma export_each_announced:
  "announced (logs (snd (export_each w ps u sfx st))) = announced (logs st)"
proof (induction ps arbitrary: st)
  case Nil
  then show ?case by simp
next
  case (Cons a ps)
  show ?case
    using export_path_announced[of w a u sfx st] Cons.IH
    by (cases "export_path w a u sfx st") (auto split: sum.splits)
qed


lemma comment_out_each_announced:
  "announced (logs (snd (comment_out_each w files st))) = announced (logs st)"
proof (induction files arbitrary: st)
  case Nil
  then show ?case by simp
next
  case (Cons f files)
  show ?case
    by (simp add: Let_def Cons.IH split: sum.splits)
qed

lemma HTML_export_announced:
  "announced (logs (snd (HTML_export w st))) \<le> announced (logs st) + 1"
  "fst (HTML_export w st) = Inr u \<Longrightarrow>
     announced (logs (snd (HTML_export w st))) = announced (logs st) + 1"
  by (auto simp: HTML_export_def export_each_announced split: sum.splits)

lemma repeat_pass_count:
  fixes c :: "'s \<Rightarrow> nat"
  assumes "\<And>s. c (snd (f s)) \<le> c s + 1"
    and "\<And>s. fst (f s) = Inr () \<Longrightarrow> c (snd (f s)) = c s + 1"
  shows "c (snd (repeat_pass n f st)) \<le> c st + n \<and>
         (fst (repeat_pass n f st) = Inr () \<longrightarrow> c (snd (repeat_pass n f st)) = c st + n)"
proof (induction n arbitrary: st)
  case 0
  then show ?case by simp
next
  case (Suc n)
  obtain r s1 where f: "f st = (r, s1)" by (cases "f st")
  show ?case
  proof (cases r)
    case (Inl e)
    then show ?thesis using f assms(1)[of st] by simp
  next
    case (Inr u)
    then have "c s1 = c st + 1" using f assms(2)[of st] by simp
    then show ?thesis using f Inr Suc.IH[of s1] by simp
  qed
qed

lemma HTML_passes_announced:
  "announced (logs (snd (repeat_pass n (HTML_export w) st))) \<le> announced (logs st) + n \<and>
   (fst (repeat_pass n (HTML_export w) st) = Inr () \<longrightarrow>
      announced (logs (snd (repeat_pass n (HTML_export w) st))) = announced (logs st) + n)"
proof (rule repeat_pass_count[where c = "\<lambda>s. announced (logs s)" and f = "HTML_export w"])
  show "announced (logs (snd (HTML_export w s))) \<le> announced (logs s) + 1" for s
    by (rule HTML_export_announced(1))
  show "fst (HTML_export w s) = Inr () \<Longrightarrow>
          announced (logs (snd (HTML_export w s))) = announced (logs s) + 1" for s
    by (rule HTML_export_announced(2))
qed

lemma comment_out_menu_tools_announced:
  "announced (logs (snd (comment_out_menu_tools w st))) = announced (logs st)"
  by (simp add: comment_out_menu_tools_def comment_out_each_announced)

lemma HTML_export_all_announced:
  "announced (logs (snd (HTML_export_all w self st))) \<le> announced (logs st) + 5 \<and>
   (fst (HTML_export_all w self st) = Inr () \<longrightarrow>
      announced (logs (snd (HTML_export_all w self st))) = announced (logs st) + 5)"
proof (cases self)
  case None
  then show ?thesis by (simp add: HTML_export_all_def)
next
  case (Some slf)
  obtain r1 s1 where e: "export_path w ''start'' None None st = (r1, s1)"
    by (cases "export_path w ''start'' None None st")
  have a1: "announced (logs s1) = announced (logs st)"
    using export_path_announced[of w "''start''" None None st] e by simp
  show ?thesis
  proof (cases "\<exists>f t. r1 = Inr (Some f) \<and> symlink_to w (Path ''index.html'') f (fs s1) = Inr t")
    case False
    then show ?thesis
      using Some e a1
      by (auto simp: HTML_export_all_def split: sum.splits option.splits)
  next
    case True
    then obtain f t where ft: "r1 = Inr (Some f)"
      "symlink_to w (Path ''index.html'') f (fs s1) = Inr t" by blast
    obtain r2 s2 where p: "repeat_pass 5 (HTML_export w) (s1\<lparr>fs := t\<rparr>) = (r2, s2)"
      by (cases "repeat_pass 5 (HTML_export w) (s1\<lparr>fs := t\<rparr>)")
    have a2: "announced (logs s2) \<le> announced (logs st) + 5"
      "r2 = Inr () \<Longrightarrow> announced (logs s2) = announced (logs st) + 5"
      using HTML_passes_announced[of 5 w "s1\<lparr>fs := t\<rparr>"] p a1 by auto
    show ?thesis
    proof (cases r2)
      case (Inl e2)
      then show ?thesis
        using Some e ft p a2(1) by (simp add: HTML_export_all_def)
    next
      case (Inr u)
      then have a3: "announced (logs s2) = announced (logs st) + 5" using a2(2) by simp
      show ?thesis
        using Some e ft p Inr a3 comment_out_menu_tools_announced[of w s2]
        by (cases slf) (simp_all add: HTML_export_all_def)
    qed
  qed
qed

lemma MD_export_all_two_passes:
  "MD_export_all w st =
     (case export_path w ''start'' (Some ''?do=edit'') (Some ''md'') st of
        (Inl e, s1) \<Rightarrow> (Inl e, s1)
      | (Inr r, s1) \<Rightarrow> repeat_pass 2 (MD_export w) s1)"
  by (simp add: MD_export_all_def numeral_2_eq_2 split: prod.splits sum.splits)

text \<open>
  C5, as the code has it. After the start page, \<open>MD.export_all\<close> runs \<open>MD.export\<close> twice,
  whatever the first pass finds: on a disk with nothing to export the two passes write
  their two warnings. \<open>HTML.export_all\<close> announces at most five passes, and exactly five
  when it returns: it runs \<open>HTML.export\<close> five times and does not stop when a pass finds
  nothing to export; such a pass, and every pass after it, writes its announcement and
  leaves the disk as it is.
\<close>

theorem driver_pass_counts:
  "MD_export_all w st =
     (case export_path w ''start'' (Some ''?do=edit'') (Some ''md'') st of
        (Inl e, s1) \<Rightarrow> (Inl e, s1)
      | (Inr r, s1) \<Rightarrow> repeat_pass 2 (MD_export w) s1)
   \<and> (MD_unexported w (fs st') = Inr [] \<longrightarrow>
        repeat_pass n (MD_export w) st'
          = (Inr (), st'\<lparr>logs := logs st' @ replicate n No_items_warning\<rparr>))
   \<and> announced (logs (snd (HTML_export_all w self st))) \<le> announced (logs st) + 5
   \<and> (fst (HTML_export_all w self st) = Inr () \<longrightarrow>
        announced (logs (snd (HTML_export_all w self st))) = announced (logs st) + 5)
   \<and> (HTML_unexported w (fs st') = Inr [] \<longrightarrow>
        repeat_pass n (HTML_export w) st'
          = (Inr (), st'\<lparr>logs := logs st' @ replicate n (Will_export_info [])\<rparr>))"
  using MD_export_all_two_passes[of w st] MD_passes_on_empty_frontier[of w st' n]
    HTML_export_all_announced[of w self st] HTML_passes_on_empty_frontier[of w st' n]
  by (intro conjI impI) simp_all

theorem driver_pass_counts_witness:
  "announced (logs (snd (HTML_export_all self_world (Some The_class) \<lparr>fs = [], logs = []\<rparr>))) = 5
   \<and> repeat_pass 2 (MD_export self_world) \<lparr>fs = self_disk, logs = []\<rparr>
     = (Inr (), \<lparr>fs = self_disk, logs = [No_items_warning, No_items_warning]\<rparr>)
   \<and> repeat_pass 2 (HTML_export self_world) \<lparr>fs = self_disk, logs = []\<rparr>
     = (Inr (), \<lparr>fs = self_disk, logs = [Will_export_info [], Will_export_info []]\<rparr>)"
proof -
  let ?st = "\<lparr>fs = [], logs = []\<rparr> :: tree state"
  let ?st' = "\<lparr>fs = self_disk, logs = []\<rparr> :: tree state"
  have h1: "MD_unexported self_world (fs ?st') = Inr []"
    by code_simp
  have h2: "fst (HTML_export_all self_world (Some The_class) ?st) = Inr ()"
    by code_simp
  have h3: "HTML_unexported self_world (fs ?st') = Inr []"
    by code_simp
  have r: "replicate 2 x = [x, x]" for x :: event
    by (simp add: numeral_2_eq_2)
  show ?thesis
    using driver_pass_counts[of self_world ?st ?st' 2 "Some The_class"] h1 h2 h3
    by (simp add: announced_def r)
qed

text \<open>
  The start page refers to itself only: once it is on the disk there is nothing to
  export, and the driver still runs its five passes, each announcing an empty list.
\<close>

theorem five_passes_counterexample:
  "HTML_unexported self_world self_disk = Inr []
   \<and> HTML_export_all self_world (Some The_class) \<lparr>fs = [], logs = []\<rparr>
     = (Inr (),
        \<lparr>fs = self_disk,
          logs = [Snapshot_info ''start'' ''20230302000000'', Will_export_info [],
                  Will_export_info [], Will_export_info [], Will_export_info [],
                  Will_export_info [], File_debug [''start'']]\<rparr>)"
  by code_simp

end
